theory Spec2Isabelle
  imports Complex_Main "HOL-Library.AList" "HOL-Library.Char_ord" "HOL-Library.List_Lexorder"
begin

section \<open>Strings\<close>

text \<open>
  A JavaScript string is modelled as a \<open>string\<close> (a \<open>char list\<close>): the UTF-8 bytes of
  the text, as the QR payload carries them. Every character the code looks at
  (\<open>createTime=\<close>, the digits, \<open>-\<close>, \<open>:\<close>, space, \<open>T\<close>, \<open>Z\<close>, \<open>?\<close>, \<open>&\<close>, \<open>=\<close>, \<open>%\<close>, \<open>+\<close>) is
  ASCII, one byte in UTF-8 and one code unit in UTF-16, and no byte of a multi-byte
  UTF-8 sequence is ASCII, so searching and splitting agree in both encodings.
\<close>

definition is_digit :: "char \<Rightarrow> bool" where
  "is_digit c = (c \<in> set ''0123456789'')"

definition digit_val :: "char \<Rightarrow> nat" where
  "digit_val c = of_char c - 48"

definition digit_char :: "nat \<Rightarrow> char" where
  "digit_char n = ''0123456789'' ! (n mod 10)"

section \<open>The Time Mutator: \<open>modifyCreateTime\<close> (base_script.js)\<close>

subsection \<open>The regular expression\<close>

text \<open>
  \<^verbatim>\<open>/createTime=([0-9]{4}-[0-9]{2}-[0-9]{2})([ T])([0-9]{2})(:[0-9]{2}:[0-9]{2})/\<close>

  Every atom of the expression consumes exactly one character and there is no
  alternative or repetition of variable length, so the expression matches at a position
  in exactly one way: the atoms are compared with the text one by one. The expression is
  kept as the list of its groups: the literal head, then the four capture groups.
\<close>

datatype atom = Lit char | Digit | OneOf "char list"

fun atom_ok :: "atom \<Rightarrow> char \<Rightarrow> bool" where
  "atom_ok (Lit a) c = (c = a)"
| "atom_ok Digit c = is_digit c"
| "atom_ok (OneOf cs) c = (c \<in> set cs)"

fun match_atoms :: "atom list \<Rightarrow> string \<Rightarrow> (string \<times> string) option" where
  "match_atoms [] s = Some ([], s)"
| "match_atoms (a # as) [] = None"
| "match_atoms (a # as) (c # cs) =
     (if atom_ok a c
      then (case match_atoms as cs of None \<Rightarrow> None | Some (m, r) \<Rightarrow> Some (c # m, r))
      else None)"

fun match_groups :: "atom list list \<Rightarrow> string \<Rightarrow> (string list \<times> string) option" where
  "match_groups [] s = Some ([], s)"
| "match_groups (g # gs) s =
     (case match_atoms g s of
        None \<Rightarrow> None
      | Some (m, r) \<Rightarrow>
          (case match_groups gs r of None \<Rightarrow> None | Some (ms, r') \<Rightarrow> Some (m # ms, r')))"

definition createTime_regex :: "atom list list" where
  "createTime_regex =
     [map Lit ''createTime='',
      [Digit, Digit, Digit, Digit, Lit (CHR ''-''), Digit, Digit, Lit (CHR ''-''), Digit, Digit],
      [OneOf '' T''],
      [Digit, Digit],
      [Lit (CHR '':''), Digit, Digit, Lit (CHR '':''), Digit, Digit]]"

text \<open>
  The match array of \<open>text.match(regex)\<close>: \<open>index\<close>, the whole match and the four
  captures, destructured by the source as \<open>[fullMatch, datePart, sep, hourStr, rest]\<close>.
\<close>

record rx_match =
  index :: nat
  fullMatch :: string
  datePart :: string
  sep :: string
  hourStr :: string
  rest :: string

definition match_here :: "nat \<Rightarrow> string \<Rightarrow> rx_match option" where
  "match_here i s =
     (case match_groups createTime_regex s of
        Some ([h, d, sp, hh, r], _) \<Rightarrow>
          Some \<lparr>index = i, fullMatch = h @ d @ sp @ hh @ r,
                datePart = d, sep = sp, hourStr = hh, rest = r\<rparr>
      | _ \<Rightarrow> None)"

text \<open>The regex is not global: the search tries each position from the left and stops
  at the first position where the expression matches.\<close>

fun regex_exec_from :: "nat \<Rightarrow> string \<Rightarrow> rx_match option" where
  "regex_exec_from i [] = match_here i []"
| "regex_exec_from i (c # cs) =
     (case match_here i (c # cs) of
        Some m \<Rightarrow> Some m
      | None \<Rightarrow> regex_exec_from (Suc i) cs)"

definition regex_exec :: "string \<Rightarrow> rx_match option" where
  "regex_exec text = regex_exec_from 0 text"

text \<open>
  \<open>text.replace(regex, replacement)\<close> with the same non-global regex: the first match is
  cut out and the replacement put in its place. A \<open>$\<close> in a replacement string starts a
  substitution pattern; the replacement the source builds holds none (lemma
  \<open>replacement_no_dollar\<close> below), so it is inserted as it is.
\<close>

definition regex_replace :: "string \<Rightarrow> string \<Rightarrow> string" where
  "regex_replace text replacement =
     (case regex_exec text of
        None \<Rightarrow> text
      | Some m \<Rightarrow>
          take (index m) text @ replacement @ drop (index m + length (fullMatch m)) text)"

subsection \<open>The hour\<close>

text \<open>
  \<open>parseInt(hourStr, 10)\<close> reads the longest prefix of decimal digits; with none it is
  \<open>NaN\<close>, here \<open>None\<close>. (The white space and the sign that \<open>parseInt\<close> also skips cannot
  stand in \<open>hourStr\<close>, which is the capture \<open>[0-9]{2}\<close>.)
\<close>

definition parseInt10 :: "string \<Rightarrow> nat option" where
  "parseInt10 s =
     (let ds = takeWhile is_digit s
      in if ds = [] then None else Some (foldl (\<lambda>n c. 10 * n + digit_val c) 0 ds))"

fun toString :: "nat \<Rightarrow> string" where
  "toString n = (if n < 10 then [digit_char n] else toString (n div 10) @ [digit_char n])"

definition padStart :: "nat \<Rightarrow> char \<Rightarrow> string \<Rightarrow> string" where
  "padStart n c s = replicate (n - length s) c @ s"

text \<open>\<open>hourNum = (parseInt(hourStr, 10) + 1) % 24\<close> and
  \<open>newHourStr = hourNum.toString().padStart(2, "0")\<close>; \<open>NaN\<close> stays \<open>NaN\<close>.\<close>

definition newHourStr :: "string \<Rightarrow> string" where
  "newHourStr hs =
     (case parseInt10 hs of
        None \<Rightarrow> padStart 2 (CHR ''0'') ''NaN''
      | Some h \<Rightarrow> padStart 2 (CHR ''0'') (toString ((h + 1) mod 24)))"

definition newTime :: "rx_match \<Rightarrow> string" where
  "newTime m = datePart m @ sep m @ newHourStr (hourStr m) @ rest m"

subsection \<open>\<open>modifyCreateTime\<close> and its callers\<close>

definition modifyCreateTime :: "string \<Rightarrow> string" where
  "modifyCreateTime text =
     (case regex_exec text of
        Some m \<Rightarrow> regex_replace text (''createTime='' @ newTime m)
      | None \<Rightarrow> text)"

text \<open>
  The one effect of \<open>modifyCreateTime\<close> besides its result: on a match it calls
  \<open>displayDeadline(newTime.replace("T", " "))\<close>, which appends the new deadline to the
  page. \<open>displayedDeadline\<close> is the text shown, \<open>None\<close> when nothing is shown.
\<close>

fun replace_first_char :: "char \<Rightarrow> char \<Rightarrow> string \<Rightarrow> string" where
  "replace_first_char a b [] = []"
| "replace_first_char a b (c # cs) = (if c = a then b # cs else c # replace_first_char a b cs)"

definition displayedDeadline :: "string \<Rightarrow> string option" where
  "displayedDeadline text =
     (case regex_exec text of
        Some m \<Rightarrow> Some (replace_first_char (CHR ''T'') (CHR '' '') (newTime m))
      | None \<Rightarrow> None)"

text \<open>
  \<open>extendQRCodeDeadline\<close>, the handler of the file input, in its two versions. What it
  awaits is outside the repository's logic and is a parameter of the model: whether a
  file was chosen, the outcome of \<open>readFileAsync(file)\<close> (the data URL, or a rejection), of
  \<open>decodeQRCode(imageDataUrl)\<close> (the text, \<open>null\<close> when no code is found, or a rejection)
  and of \<open>generateQRCode(text)\<close> (the image is shown, or a rejection). Each of them
  settles. A rejection is an exception at the \<open>await\<close> and goes to the \<open>catch\<close> block. (In
  the later version \<open>decodeQRCode\<close> resolves to \<open>null\<close> where the first one rejects; the
  handler is the same for either.)
\<close>

datatype failure = FileReadFailed | ImageLoadFailed | QRDecodeFailed | QRGenerateFailed

datatype 'a promise = Resolved 'a | Rejected failure

record browser =
  fileChosen :: bool
  readFileAsync :: "string promise"
  decodeQRCode :: "string \<Rightarrow> string option promise"
  generateQRCode :: "string \<Rightarrow> unit promise"

text \<open>
  The messages of the two versions: no file chosen (base_script.js only), no text
  recognised, no \<open>createTime\<close> to modify (base_script.js only), the message of the \<open>catch\<close>
  block with the failure it reports, and the three messages of success. An outcome is the
  text whose code is shown (\<open>None\<close> when no code is shown), the deadline shown by
  \<open>modifyCreateTime\<close> and the message (\<open>None\<close> when the handler returns without one).
\<close>

datatype message =
  ErrChooseFile | ErrCannotRecognise | ErrNoCreateTime | ErrProcessingFailed failure
| OkGenerated | OkExtended | OkRegeneratedUnchanged

record outcome =
  qrText :: "string option"
  deadline :: "string option"
  shown :: "message option"

definition failed :: "string option \<Rightarrow> failure \<Rightarrow> outcome" where
  "failed dl f = \<lparr>qrText = None, deadline = dl, shown = Some (ErrProcessingFailed f)\<rparr>"

text \<open>
  base_script.js. \<open>!originalText\<close> holds for \<open>null\<close> and for the empty string. The text is
  compared with what \<open>modifyCreateTime\<close> returns; when they are equal the handler stops
  with an error message and generates nothing.
\<close>

definition extendQRCodeDeadline_base :: "browser \<Rightarrow> outcome" where
  "extendQRCodeDeadline_base b =
     (if \<not> fileChosen b then \<lparr>qrText = None, deadline = None, shown = Some ErrChooseFile\<rparr>
      else case readFileAsync b of
        Rejected f \<Rightarrow> failed None f
      | Resolved imageDataUrl \<Rightarrow>
          (case decodeQRCode b imageDataUrl of
             Rejected f \<Rightarrow> failed None f
           | Resolved None \<Rightarrow> \<lparr>qrText = None, deadline = None, shown = Some ErrCannotRecognise\<rparr>
           | Resolved (Some originalText) \<Rightarrow>
               if originalText = []
               then \<lparr>qrText = None, deadline = None, shown = Some ErrCannotRecognise\<rparr>
               else (let modifiedText = modifyCreateTime originalText;
                         dl = displayedDeadline originalText
                     in if modifiedText = originalText
                        then \<lparr>qrText = None, deadline = dl, shown = Some ErrNoCreateTime\<rparr>
                        else (case generateQRCode b modifiedText of
                                Rejected f \<Rightarrow> failed dl f
                              | Resolved _ \<Rightarrow>
                                  \<lparr>qrText = Some modifiedText, deadline = dl,
                                   shown = Some OkGenerated\<rparr>))))"

text \<open>
  The later version (part_001). Without a file it returns with no message. It generates
  the code of the returned text whether or not the text was changed, and chooses the
  message of success by the comparison, which it reaches only when the generation did
  not fail.
\<close>

definition extendQRCodeDeadline_part001 :: "browser \<Rightarrow> outcome" where
  "extendQRCodeDeadline_part001 b =
     (if \<not> fileChosen b then \<lparr>qrText = None, deadline = None, shown = None\<rparr>
      else case readFileAsync b of
        Rejected f \<Rightarrow> failed None f
      | Resolved imageDataUrl \<Rightarrow>
          (case decodeQRCode b imageDataUrl of
             Rejected f \<Rightarrow> failed None f
           | Resolved None \<Rightarrow> \<lparr>qrText = None, deadline = None, shown = Some ErrCannotRecognise\<rparr>
           | Resolved (Some originalText) \<Rightarrow>
               if originalText = []
               then \<lparr>qrText = None, deadline = None, shown = Some ErrCannotRecognise\<rparr>
               else (let modifiedText = modifyCreateTime originalText;
                         dl = displayedDeadline originalText
                     in case generateQRCode b modifiedText of
                          Rejected f \<Rightarrow> failed dl f
                        | Resolved _ \<Rightarrow>
                            \<lparr>qrText = Some modifiedText, deadline = dl,
                             shown = Some (if modifiedText \<noteq> originalText then OkExtended
                                           else OkRegeneratedUnchanged)\<rparr>)))"

text \<open>\<open>decoded_to b t\<close>: in the browser \<open>b\<close> a file was chosen, read and decoded to the
  text \<open>t\<close>, which is not empty, so that the handler reaches \<open>modifyCreateTime\<close>.\<close>

definition decoded_to :: "browser \<Rightarrow> string \<Rightarrow> bool" where
  "decoded_to b t =
     (fileChosen b \<and> t \<noteq> []
      \<and> (case readFileAsync b of
            Resolved imageDataUrl \<Rightarrow> decodeQRCode b imageDataUrl = Resolved (Some t)
          | Rejected _ \<Rightarrow> False))"

text \<open>A browser in which a file was chosen, was read and decoded to the text \<open>t\<close>, and in
  which the generation succeeds or fails as \<open>ok\<close> says.\<close>

definition decoded_browser :: "string \<Rightarrow> bool \<Rightarrow> browser" where
  "decoded_browser t ok =
     \<lparr>fileChosen = True, readFileAsync = Resolved ''data:image/png;base64,'',
      decodeQRCode = (\<lambda>_. Resolved (Some t)),
      generateQRCode = (\<lambda>_. if ok then Resolved () else Rejected QRGenerateFailed)\<rparr>"

subsection \<open>The shape of a match, in the words of the specification\<close>

text \<open>
  \<open>is_date\<close>: a date \<open>NNNN-NN-NN\<close>; \<open>is_min_sec\<close>: a suffix \<open>:NN:NN\<close>; \<open>two_digits n\<close>: the number
  \<open>n\<close> zero-padded to two digits; \<open>matches_at text i\<close>: the pattern of the Time Mutator
  stands in \<open>text\<close> at position \<open>i\<close>.
\<close>

definition is_date :: "string \<Rightarrow> bool" where
  "is_date d =
     (case d of
        [y1, y2, y3, y4, a, m1, m2, b, d1, d2] \<Rightarrow>
          list_all is_digit [y1, y2, y3, y4, m1, m2, d1, d2] \<and> a = CHR ''-'' \<and> b = CHR ''-''
      | _ \<Rightarrow> False)"

definition is_min_sec :: "string \<Rightarrow> bool" where
  "is_min_sec r =
     (case r of
        [a, m1, m2, b, s1, s2] \<Rightarrow>
          list_all is_digit [m1, m2, s1, s2] \<and> a = CHR '':'' \<and> b = CHR '':''
      | _ \<Rightarrow> False)"

definition two_digits :: "nat \<Rightarrow> string" where
  "two_digits n = [digit_char (n div 10), digit_char n]"

definition matches_at :: "string \<Rightarrow> nat \<Rightarrow> bool" where
  "matches_at text i =
     (let s = drop i text
      in take 11 s = ''createTime='' \<and> is_date (take 10 (drop 11 s))
         \<and> take 1 (drop 21 s) \<in> {'' '', ''T''}
         \<and> length (take 2 (drop 22 s)) = 2 \<and> list_all is_digit (take 2 (drop 22 s))
         \<and> is_min_sec (take 6 (drop 24 s)))"

section \<open>The Text Parameter Extractor: \<open>QRAnalyzer.parseQRContent\<close> (part_000)\<close>

subsection \<open>String helpers of the language\<close>

text \<open>\<open>s.split(c)\<close> for a one-character separator: always at least one piece, and the
  empty string gives one empty piece. With a limit, \<open>s.split(c, n)\<close> keeps the first \<open>n\<close>
  pieces and drops the others (the remainder is not put into the last piece).\<close>

fun split_on :: "char \<Rightarrow> string \<Rightarrow> string list" where
  "split_on c [] = [[]]"
| "split_on c (x # xs) =
     (if x = c then [] # split_on c xs
      else (case split_on c xs of [] \<Rightarrow> [[x]] | p # ps \<Rightarrow> (x # p) # ps))"

definition split_limit :: "char \<Rightarrow> nat \<Rightarrow> string \<Rightarrow> string list" where
  "split_limit c n s = take n (split_on c s)"

definition is_hex :: "char \<Rightarrow> bool" where
  "is_hex c = (c \<in> set ''0123456789abcdefABCDEF'')"

definition hex_val :: "char \<Rightarrow> nat" where
  "hex_val c =
     (if is_digit c then of_char c - 48
      else if c \<in> set ''abcdef'' then of_char c - 87
      else of_char c - 55)"

definition hex_byte :: "char \<Rightarrow> char \<Rightarrow> char" where
  "hex_byte h1 h2 = char_of (16 * hex_val h1 + hex_val h2)"

subsection \<open>\<open>decodeURIComponent\<close>\<close>

text \<open>
  The \<open>Decode\<close> operation of ECMAScript with an empty reserved set, on UTF-8 bytes. A
  character other than \<open>%\<close> is copied. A \<open>%\<close> must be followed by two hexadecimal digits,
  which give a byte. A byte below 0x80 is the decoded character. Otherwise its leading
  one bits give the length \<open>n\<close> of a UTF-8 sequence (\<open>n = 1\<close> or \<open>n > 4\<close> is an error), the
  next \<open>n - 1\<close> bytes must be escaped likewise and follow at once, and the \<open>n\<close> bytes must
  be the UTF-8 encoding of a code point (no overlong form, no surrogate, nothing above
  U+10FFFF); the decoded character is then these bytes. Every failure throws
  \<open>URIError\<close>.
\<close>

datatype js_error = URIError

definition leading_ones :: "char \<Rightarrow> nat" where
  "leading_ones b =
     (let n = (of_char b :: nat)
      in if n < 128 then 0 else if n < 192 then 1 else if n < 224 then 2
         else if n < 240 then 3 else if n < 248 then 4 else 5)"

definition valid_utf8 :: "string \<Rightarrow> bool" where
  "valid_utf8 bs =
     (case map of_char bs :: nat list of
        [b0, b1] \<Rightarrow> 194 \<le> b0 \<and> b0 \<le> 223 \<and> 128 \<le> b1 \<and> b1 \<le> 191
      | [b0, b1, b2] \<Rightarrow>
          224 \<le> b0 \<and> b0 \<le> 239
          \<and> (if b0 = 224 then 160 else 128) \<le> b1 \<and> b1 \<le> (if b0 = 237 then 159 else 191)
          \<and> 128 \<le> b2 \<and> b2 \<le> 191
      | [b0, b1, b2, b3] \<Rightarrow>
          240 \<le> b0 \<and> b0 \<le> 244
          \<and> (if b0 = 240 then 144 else 128) \<le> b1 \<and> b1 \<le> (if b0 = 244 then 143 else 191)
          \<and> 128 \<le> b2 \<and> b2 \<le> 191 \<and> 128 \<le> b3 \<and> b3 \<le> 191
      | _ \<Rightarrow> False)"

definition emit :: "string \<Rightarrow> js_error + string \<Rightarrow> js_error + string" where
  "emit bs r = (case r of Inl e \<Rightarrow> Inl e | Inr s \<Rightarrow> Inr (bs @ s))"

text \<open>\<open>decode k pend s\<close>: \<open>k\<close> escaped bytes of the current sequence are still to come after
  the bytes \<open>pend\<close> already read; \<open>k = 0\<close> between characters.\<close>

fun decode :: "nat \<Rightarrow> string \<Rightarrow> string \<Rightarrow> js_error + string" where
  "decode k pend [] = (if k = 0 then Inr [] else Inl URIError)"
| "decode 0 pend (c # cs) =
     (if c \<noteq> CHR ''%'' then emit [c] (decode 0 [] cs)
      else (case cs of
              h1 # h2 # r \<Rightarrow>
                if is_hex h1 \<and> is_hex h2
                then (let b = hex_byte h1 h2; n = leading_ones b
                      in if n = 0 then emit [b] (decode 0 [] r)
                         else if n = 1 \<or> n > 4 then Inl URIError
                         else decode (n - 1) [b] r)
                else Inl URIError
            | _ \<Rightarrow> Inl URIError))"
| "decode (Suc k) pend (c # cs) =
     (if c \<noteq> CHR ''%'' then Inl URIError
      else (case cs of
              h1 # h2 # r \<Rightarrow>
                if is_hex h1 \<and> is_hex h2
                then (let pend' = pend @ [hex_byte h1 h2]
                      in if k = 0
                         then (if valid_utf8 pend' then emit pend' (decode 0 [] r)
                               else Inl URIError)
                         else decode k pend' r)
                else Inl URIError
            | _ \<Rightarrow> Inl URIError))"

definition decodeURIComponent :: "string \<Rightarrow> js_error + string" where
  "decodeURIComponent s = decode 0 [] s"

subsection \<open>\<open>URLSearchParams\<close>\<close>

text \<open>
  The \<open>application/x-www-form-urlencoded\<close> parser of the URL standard, which
  \<open>new URLSearchParams(string)\<close> runs after removing one leading \<open>?\<close>: the input is split
  on \<open>&\<close>; an empty piece is skipped; a piece with \<open>=\<close> is cut at the first \<open>=\<close> into name
  and value, a piece without \<open>=\<close> is a name with the empty value; in both \<open>+\<close> becomes a
  space; both are percent-decoded (a \<open>%\<close> not followed by two hexadecimal digits stays as
  it is) and decoded as UTF-8, where a byte that cannot continue or start a sequence
  becomes U+FFFD. Nothing in it throws.
\<close>

fun percent_decode :: "string \<Rightarrow> string" where
  "percent_decode [] = []"
| "percent_decode (c # cs) =
     (case cs of
        h1 # h2 # r \<Rightarrow>
          if c = CHR ''%'' \<and> is_hex h1 \<and> is_hex h2
          then hex_byte h1 h2 # percent_decode r
          else c # percent_decode cs
      | _ \<Rightarrow> c # percent_decode cs)"

definition replacement_char :: string where
  "replacement_char = [CHR 0xEF, CHR 0xBF, CHR 0xBD]"

text \<open>\<open>utf8_lossy k lo hi pend bs\<close>: the decoder's state is the number \<open>k\<close> of bytes still
  needed, the bounds \<open>lo\<close> and \<open>hi\<close> for the next byte and the bytes \<open>pend\<close> read so far. A
  byte out of bounds ends the sequence with U+FFFD and is read again as a first byte.\<close>

fun utf8_lossy :: "nat \<Rightarrow> nat \<Rightarrow> nat \<Rightarrow> string \<Rightarrow> string \<Rightarrow> string" where
  "utf8_lossy k lo hi pend [] = (if k = 0 then [] else replacement_char)"
| "utf8_lossy 0 lo hi pend (b # bs) =
     (let n = (of_char b :: nat)
      in if n < 128 then b # utf8_lossy 0 128 191 [] bs
         else if 194 \<le> n \<and> n \<le> 223 then utf8_lossy 1 128 191 [b] bs
         else if 224 \<le> n \<and> n \<le> 239
           then utf8_lossy 2 (if n = 224 then 160 else 128) (if n = 237 then 159 else 191) [b] bs
         else if 240 \<le> n \<and> n \<le> 244
           then utf8_lossy 3 (if n = 240 then 144 else 128) (if n = 244 then 143 else 191) [b] bs
         else replacement_char @ utf8_lossy 0 128 191 [] bs)"
| "utf8_lossy (Suc k) lo hi pend (b # bs) =
     (let n = (of_char b :: nat)
      in if n < lo \<or> hi < n then replacement_char @ utf8_lossy 0 128 191 [] (b # bs)
         else if k = 0 then pend @ b # utf8_lossy 0 128 191 [] bs
         else utf8_lossy k 128 191 (pend @ [b]) bs)"

definition form_decode :: "string \<Rightarrow> string" where
  "form_decode s =
     utf8_lossy 0 128 191 []
       (percent_decode (map (\<lambda>c. if c = CHR ''+'' then CHR '' '' else c) s))"

definition form_pair :: "string \<Rightarrow> string \<times> string" where
  "form_pair piece =
     (if CHR ''='' \<in> set piece
      then (form_decode (takeWhile (\<lambda>c. c \<noteq> CHR ''='') piece),
            form_decode (tl (dropWhile (\<lambda>c. c \<noteq> CHR ''='') piece)))
      else (form_decode piece, []))"

definition URLSearchParams :: "string option \<Rightarrow> (string \<times> string) list" where
  "URLSearchParams init =
     (case init of
        None \<Rightarrow> []
      | Some s \<Rightarrow>
          map form_pair
            (filter (\<lambda>piece. piece \<noteq> [])
               (split_on (CHR ''&'') (if take 1 s = ''?'' then drop 1 s else s))))"

subsection \<open>The \<open>params\<close> object\<close>

text \<open>
  \<open>result.params\<close> starts as the object literal \<open>{}\<close>. It is modelled by the list of its own
  properties in insertion order; an assignment replaces the value of a key that is there
  and appends a new key. The object inherits from \<open>Object.prototype\<close>: an assignment to
  the key \<open>__proto__\<close> runs the inherited setter, which ignores a string, so no property
  is stored; and reading a key that is not an own property finds the inherited member of
  that name, if there is one, before it gives \<open>undefined\<close>.
\<close>

type_synonym js_object = "(string \<times> string) list"

definition set_prop :: "js_object \<Rightarrow> string \<Rightarrow> string \<Rightarrow> js_object" where
  "set_prop obj k v = (if k = ''__proto__'' then obj else AList.update k v obj)"

definition object_prototype_names :: "string list" where
  "object_prototype_names =
     [''constructor'', ''hasOwnProperty'', ''isPrototypeOf'', ''propertyIsEnumerable'',
      ''toLocaleString'', ''toString'', ''valueOf'', ''__proto__'',
      ''__defineGetter__'', ''__defineSetter__'', ''__lookupGetter__'', ''__lookupSetter__'']"

datatype js_val = Undefined | Str string | Inherited string

definition get_prop :: "js_object \<Rightarrow> string \<Rightarrow> js_val" where
  "get_prop obj k =
     (case map_of obj k of
        Some v \<Rightarrow> Str v
      | None \<Rightarrow> if k \<in> set object_prototype_names then Inherited k else Undefined)"

definition truthy :: "js_val \<Rightarrow> bool" where
  "truthy v = (case v of Undefined \<Rightarrow> False | Str s \<Rightarrow> s \<noteq> [] | Inherited _ \<Rightarrow> True)"

text \<open>
  \<open>Object.keys(obj)\<close>: the own keys, first those that are array indices (the decimal
  form, without a leading zero, of an integer below \<open>2^32 - 1\<close>) in ascending order, then
  the other keys in insertion order.
\<close>

definition digits_val :: "string \<Rightarrow> int" where
  "digits_val ds = foldl (\<lambda>n c. 10 * n + int (digit_val c)) 0 ds"

definition is_array_index :: "string \<Rightarrow> bool" where
  "is_array_index k =
     (k \<noteq> [] \<and> list_all is_digit k \<and> (k = ''0'' \<or> take 1 k \<noteq> ''0'')
      \<and> digits_val k < 4294967295)"

definition Object_keys :: "js_object \<Rightarrow> string list" where
  "Object_keys obj =
     (let ks = map fst obj
      in sort_key digits_val (filter is_array_index ks)
         @ filter (\<lambda>k. \<not> is_array_index k) ks)"

text \<open>
  The default order of \<open>Array.prototype.sort\<close> compares strings by their UTF-16 code units.
  \<open>utf16_units\<close> gives the code units of a text from its UTF-8 bytes: one unit for a
  sequence of one, two or three bytes, a surrogate pair for a sequence of four. (The bytes
  are those of a JavaScript string and so well formed; a byte that cannot start a
  sequence, or a sequence cut short at the end of the text, is read as U+FFFD.)
\<close>

fun utf16_units :: "string \<Rightarrow> int list" where
  "utf16_units [] = []"
| "utf16_units (b # bs) =
     (let n = (of_char b :: int)
      in if n < 128 then n # utf16_units bs
         else if n < 192 \<or> 248 \<le> n then 65533 # utf16_units bs
         else if n < 224
           then (case bs of
                   b1 # r \<Rightarrow> ((n - 192) * 64 + (of_char b1 - 128)) # utf16_units r
                 | _ \<Rightarrow> [65533])
         else if n < 240
           then (case bs of
                   b1 # b2 # r \<Rightarrow>
                     ((n - 224) * 4096 + (of_char b1 - 128) * 64 + (of_char b2 - 128))
                     # utf16_units r
                 | _ \<Rightarrow> [65533])
         else (case bs of
                 b1 # b2 # b3 # r \<Rightarrow>
                   (let cp = (n - 240) * 262144 + (of_char b1 - 128) * 4096
                             + (of_char b2 - 128) * 64 + (of_char b3 - 128) - 65536
                    in (55296 + cp div 1024) # (56320 + cp mod 1024) # utf16_units r)
               | _ \<Rightarrow> [65533]))"

section \<open>The Time Field Interpreter: \<open>QRAnalyzer.parseTimeString\<close> (part_000)\<close>

text \<open>
  The host's \<open>Date\<close> is not part of the repository, and what \<open>new Date(string)\<close> accepts
  beyond the ISO format, and in which time zone, is left to the implementation. The
  model takes it as a parameter: \<open>date_parse s\<close> is the time value of \<open>new Date(s)\<close> in
  milliseconds since the epoch, \<open>None\<close> for an invalid date (a \<open>NaN\<close> time value), and
  \<open>toLocaleString_zhCN t\<close> is the text \<open>date.toLocaleString('zh-CN', ...)\<close> gives for the
  time value \<open>t\<close> with the options of the source.
\<close>

record host =
  date_parse :: "string \<Rightarrow> int option"
  toLocaleString_zhCN :: "int \<Rightarrow> string"

text \<open>\<open>timeString.replace(/[TZ]/g, ' ')\<close>: every \<open>T\<close> and every \<open>Z\<close> becomes a space.\<close>

definition replace_TZ :: "string \<Rightarrow> string" where
  "replace_TZ s = map (\<lambda>c. if c = CHR ''T'' \<or> c = CHR ''Z'' then CHR '' '' else c) s"

text \<open>\<open>s.trim()\<close> removes white space and line terminators from both ends:
  TAB, LF, VT, FF, CR, space, U+00A0, U+1680, U+2000 to U+200A, U+2028, U+2029, U+202F,
  U+205F, U+3000 and U+FEFF, here in UTF-8.\<close>

definition white_space :: "string list" where
  "white_space =
     map (\<lambda>c. [c]) [CHR 0x09, CHR 0x0A, CHR 0x0B, CHR 0x0C, CHR 0x0D, CHR 0x20]
     @ [[CHR 0xC2, CHR 0xA0], [CHR 0xE1, CHR 0x9A, CHR 0x80]]
     @ map (\<lambda>c. [CHR 0xE2, CHR 0x80, c])
         [CHR 0x80, CHR 0x81, CHR 0x82, CHR 0x83, CHR 0x84, CHR 0x85, CHR 0x86, CHR 0x87,
          CHR 0x88, CHR 0x89, CHR 0x8A, CHR 0xA8, CHR 0xA9, CHR 0xAF]
     @ [[CHR 0xE2, CHR 0x81, CHR 0x9F], [CHR 0xE3, CHR 0x80, CHR 0x80],
        [CHR 0xEF, CHR 0xBB, CHR 0xBF]]"

function strip_leading :: "string list \<Rightarrow> string \<Rightarrow> string" where
  "strip_leading ws s =
     (case find (\<lambda>w. w \<noteq> [] \<and> take (length w) s = w) ws of
        None \<Rightarrow> s
      | Some w \<Rightarrow> strip_leading ws (drop (length w) s))"
  by pat_completeness auto
termination
proof (relation "measure (\<lambda>(ws, s). length s)")
  show "wf (measure (\<lambda>(ws, s). length s))" by simp
next
  fix ws :: "string list" and s w :: string
  assume "find (\<lambda>w. w \<noteq> [] \<and> take (length w) s = w) ws = Some w"
  then have "w \<noteq> []" and "take (length w) s = w"
    by (auto simp: find_Some_iff)
  then have "s \<noteq> []" by auto
  with \<open>w \<noteq> []\<close> show "((ws, drop (length w) s), (ws, s)) \<in> measure (\<lambda>(ws, s). length s)"
    by simp
qed

declare strip_leading.simps [simp del]

definition trim :: "string \<Rightarrow> string" where
  "trim s = rev (strip_leading (map rev white_space) (rev (strip_leading white_space s)))"

text \<open>
  The two shapes of the object \<open>parseTimeString\<close> returns: \<open>{original, parsed: null,
  error}\<close> and \<open>{original, parsed: date, formatted, timestamp}\<close>. The \<open>Date\<close> object in
  \<open>parsed\<close> is kept as its time value. \<open>CannotParseTime\<close> is the message of the source for an
  invalid date; \<open>Thrown\<close> is the message of an exception caught by the \<open>catch\<close> block, which
  no operation of the \<open>try\<close> block raises: \<open>replace\<close> and \<open>trim\<close> on a string, \<open>new Date\<close> of
  a string, \<open>getTime\<close> and \<open>toLocaleString\<close> with a well-formed locale do not throw.
\<close>

datatype time_failure = CannotParseTime | Thrown string

datatype parsed_time =
  TimeFailed (original: string) (failure: time_failure)
| TimeParsed (original: string) (parsed: int) (formatted: string) (timestamp: int)

definition parseTimeString :: "host \<Rightarrow> string \<Rightarrow> parsed_time" where
  "parseTimeString h timeString =
     (let cleanTime = trim (replace_TZ timeString)
      in case date_parse h cleanTime of
           None \<Rightarrow> TimeFailed timeString CannotParseTime
         | Some t \<Rightarrow> TimeParsed timeString t (toLocaleString_zhCN h t) t)"

text \<open>\<open>valid\<close> in the words of the specification: the test the code itself makes,
  \<open>data.parsedTime.parsed\<close> being a date and not \<open>null\<close>; \<open>instant\<close> is the \<open>timestamp\<close>
  property, absent from the failure shape.\<close>

definition valid :: "parsed_time \<Rightarrow> bool" where
  "valid pt = (case pt of TimeFailed _ _ \<Rightarrow> False | TimeParsed _ _ _ _ \<Rightarrow> True)"

definition instant :: "parsed_time \<Rightarrow> int option" where
  "instant pt = (case pt of TimeFailed _ _ \<Rightarrow> None | TimeParsed _ _ _ t \<Rightarrow> Some t)"

section \<open>\<open>parseQRContent\<close>\<close>

text \<open>A record of \<open>qrData\<close>. \<open>qr_error\<close>: the message of \<open>parseQRContent\<close> about a failed
  parameter parse, or the message \<open>analyzeFiles\<close> stores for an image that could not be
  read or decoded.\<close>

datatype qr_error = ParamParseFailed js_error | DecodeFailed

record qr_record =
  fileName :: string
  rawContent :: "string option"
  params :: js_object
  error :: "qr_error option"
  parsedTime :: "parsed_time option"

text \<open>The loop over \<open>new URLSearchParams(paramString)\<close>: every pair is assigned.\<close>

definition assign_all :: "(string \<times> string) list \<Rightarrow> js_object \<Rightarrow> js_object" where
  "assign_all pairs obj = fold (\<lambda>(k, v) ob. set_prop ob k v) pairs obj"

text \<open>
  The loop over \<open>content.split('&')\<close> of the bare form. A pair without \<open>=\<close> is passed over.
  Otherwise \<open>pair.split('=', 2)\<close> gives the key and the value, the key is decoded, then the
  value, and the property is assigned. \<open>decodeURIComponent\<close> may throw: the loop then ends
  at once, with the properties assigned so far left in \<open>result.params\<close>. The result is the
  object and the exception, if any.
\<close>

fun bare_pairs :: "string list \<Rightarrow> js_object \<Rightarrow> js_object \<times> js_error option" where
  "bare_pairs [] obj = (obj, None)"
| "bare_pairs (pair # pairs) obj =
     (if CHR ''='' \<in> set pair
      then (case split_limit (CHR ''='') 2 pair of
              key # val # _ \<Rightarrow>
                (case decodeURIComponent key of
                   Inl e \<Rightarrow> (obj, Some e)
                 | Inr k \<Rightarrow>
                     (case decodeURIComponent val of
                        Inl e \<Rightarrow> (obj, Some e)
                      | Inr v \<Rightarrow> bare_pairs pairs (set_prop obj k v)))
            | _ \<Rightarrow> bare_pairs pairs obj)
      else bare_pairs pairs obj)"

text \<open>
  \<open>parseQRContent(content, fileName)\<close>. The whole parse stands in one \<open>try\<close> block: an
  exception leaves the \<open>params\<close> filled so far, skips the parse of \<open>createTime\<close> and
  becomes the \<open>error\<close> of the record. The time is parsed when \<open>result.params.createTime\<close> is
  truthy, that is, a non-empty string.
\<close>

definition parse_params :: "string \<Rightarrow> js_object \<times> js_error option" where
  "parse_params content =
     (if CHR ''?'' \<in> set content
      then (let urlParts = split_on (CHR ''?'') content;
                paramString = (case urlParts of _ # p # _ \<Rightarrow> Some p | _ \<Rightarrow> None)
            in (assign_all (URLSearchParams paramString) [], None))
      else if CHR ''='' \<in> set content
      then bare_pairs (split_on (CHR ''&'') content) []
      else ([], None))"

definition parseQRContent :: "host \<Rightarrow> string \<Rightarrow> string \<Rightarrow> qr_record" where
  "parseQRContent h content name =
     (let result = \<lparr>fileName = name, rawContent = Some content, params = [], error = None,
                     parsedTime = None\<rparr>
      in case parse_params content of
           (ps, Some e) \<Rightarrow> result\<lparr>params := ps, error := Some (ParamParseFailed e)\<rparr>
         | (ps, None) \<Rightarrow>
             (case get_prop ps ''createTime'' of
                Str v \<Rightarrow>
                  if v \<noteq> [] then result\<lparr>params := ps, parsedTime := Some (parseTimeString h v)\<rparr>
                  else result\<lparr>params := ps\<rparr>
              | _ \<Rightarrow> result\<lparr>params := ps\<rparr>))"

section \<open>The Comparison Report Builder (part_000)\<close>

subsection \<open>\<open>analyzeTimeDifferences\<close>\<close>

text \<open>
  \<open>Math.round(x)\<close> is the integer nearest to \<open>x\<close>, a tie going up. The source computes
  the difference of two time values and its quotients in double precision; the model
  computes them exactly. The two agree as long as the difference is below \<open>2^53\<close>
  milliseconds (some 285000 years): time values are integers of at most 8.64e15 in
  absolute value, so they and such a difference are doubles and the subtraction is
  exact; the quotient is then below \<open>2^32\<close> hours or \<open>2^38\<close> minutes, where the rounding
  error of the division is smaller than the distance of a quotient from the next number
  half way between two integers. For a larger difference the subtraction itself is
  rounded and the source may show another number, so what is proved about \<open>delta_of\<close>
  carries this bound.
\<close>

definition Math_round :: "rat \<Rightarrow> int" where
  "Math_round x = \<lfloor>x + 1 / 2\<rfloor>"

text \<open>An element of \<open>timesData\<close>: the file name and, of the \<open>time\<close> object, the two
  properties the function reads.\<close>

record time_entry =
  tFileName :: string
  tFormatted :: string
  tTimestamp :: int

text \<open>\<open>qrData.filter(data => data.parsedTime && data.parsedTime.parsed).map(...)\<close>: a
  record passes the filter when it has a \<open>parsedTime\<close> of the success shape.\<close>

definition time_entry_of :: "qr_record \<Rightarrow> time_entry option" where
  "time_entry_of d =
     (case parsedTime d of
        Some (TimeParsed _ _ f t) \<Rightarrow> Some \<lparr>tFileName = fileName d, tFormatted = f, tTimestamp = t\<rparr>
      | _ \<Rightarrow> None)"

datatype duration = Hours int | Minutes int

record delta_item =
  fromFile :: string
  toFile :: string
  differ :: duration
  fromTime :: string
  toTime :: string

text \<open>One list item of the report, for \<open>current = timesData[i]\<close> and
  \<open>next = timesData[i + 1]\<close>.\<close>

definition delta_of :: "time_entry \<Rightarrow> time_entry \<Rightarrow> delta_item" where
  "delta_of current nxt =
     (let diffMs = tTimestamp nxt - tTimestamp current;
          diffMinutes = Math_round (of_int diffMs / 60000);
          diffHours = Math_round (of_int diffMs / 3600000)
      in \<lparr>fromFile = tFileName current, toFile = tFileName nxt,
          differ = (if diffHours > 0 then Hours diffHours else Minutes diffMinutes),
          fromTime = tFormatted current, toTime = tFormatted nxt\<rparr>)"

fun adjacent_deltas :: "time_entry list \<Rightarrow> delta_item list" where
  "adjacent_deltas (a # b # es) = delta_of a b # adjacent_deltas (b # es)"
| "adjacent_deltas _ = []"

text \<open>\<open>Array.prototype.sort\<close> with the comparator \<open>a.time.timestamp - b.time.timestamp\<close>
  is a stable sort by the time stamp (stable since ECMAScript 2019); \<open>sort_key\<close> is the
  stable insertion sort. With fewer than two entries the function returns the note that
  there is not enough time data.\<close>

datatype time_analysis = NotEnoughTimes | TimeDeltas "delta_item list"

definition analyzeTimeDifferences :: "qr_record list \<Rightarrow> time_analysis" where
  "analyzeTimeDifferences qrData =
     (let timesData = List.map_filter time_entry_of qrData
      in if length timesData < 2 then NotEnoughTimes
         else TimeDeltas (adjacent_deltas (sort_key tTimestamp timesData)))"

subsection \<open>\<open>createComparisonResults\<close>\<close>

text \<open>A row of the table: the parameter, the value of every record in record order
  (\<open>data.params[param] || ''\<close>) and \<open>isUniform\<close>; a row that is not uniform gets the
  class \<open>highlight\<close>.\<close>

record comparison_row =
  param :: string
  cells :: "js_val list"
  isUniform :: bool

definition or_empty :: "js_val \<Rightarrow> js_val" where
  "or_empty v = (if truthy v then v else Str [])"

text \<open>\<open>allParams\<close> is a \<open>Set\<close>: \<open>add\<close> keeps the first insertion of a key.\<close>

definition set_add :: "string \<Rightarrow> string list \<Rightarrow> string list" where
  "set_add k s = (if k \<in> set s then s else s @ [k])"

definition all_params :: "qr_record list \<Rightarrow> string list" where
  "all_params qrData = fold (\<lambda>d s. fold set_add (Object_keys (params d)) s) qrData []"

definition row_of :: "qr_record list \<Rightarrow> string \<Rightarrow> comparison_row" where
  "row_of qrData p =
     (let vals = map (\<lambda>d. or_empty (get_prop (params d) p)) qrData
      in \<lparr>param = p, cells = vals,
          isUniform = (case vals of [] \<Rightarrow> True | v0 # _ \<Rightarrow> list_all (\<lambda>v. v = v0) vals)\<rparr>)"

text \<open>
  With fewer than two records the function returns at once with the note that two codes
  are needed: no table and no time analysis. Otherwise the table is there when
  \<open>allParams\<close> is not empty, its rows in the order of \<open>Array.from(allParams).sort()\<close>, the
  lexicographic order of the keys as sequences of UTF-16 code units (the sort is stable,
  and the elements of a \<open>Set\<close> are distinct).
\<close>

datatype comparison =
  NeedTwoRecords
| Comparison (table: "comparison_row list option") (timeAnalysis: time_analysis)

definition createComparisonResults :: "qr_record list \<Rightarrow> comparison" where
  "createComparisonResults qrData =
     (if length qrData < 2 then NeedTwoRecords
      else (let allParams = all_params qrData
            in Comparison
                 (if length allParams > 0
                  then Some (map (row_of qrData) (sort_key utf16_units allParams))
                  else None)
                 (analyzeTimeDifferences qrData)))"

text \<open>The rows and the time differences a result shows.\<close>

definition rows_of :: "comparison \<Rightarrow> comparison_row list" where
  "rows_of c = (case c of Comparison (Some rows) _ \<Rightarrow> rows | _ \<Rightarrow> [])"

definition deltas_of :: "time_analysis \<Rightarrow> delta_item list" where
  "deltas_of a = (case a of TimeDeltas ds \<Rightarrow> ds | NotEnoughTimes \<Rightarrow> [])"

definition comparison_deltas :: "comparison \<Rightarrow> delta_item list" where
  "comparison_deltas c = (case c of Comparison _ a \<Rightarrow> deltas_of a | NeedTwoRecords \<Rightarrow> [])"

section \<open>A sample host\<close>

text \<open>
  To run the model on concrete input a host is needed. \<open>utc_host\<close> is one that a browser
  with the local time zone UTC agrees with on the one format the application writes,
  \<open>YYYY-MM-DD HH:MM:SS\<close>: it reads the fields as a civil date and time of day in UTC and
  rejects every other string, and it prints a time value as \<open>YYYY/MM/DD HH:MM:SS\<close>.
  The day count is the usual one of the proleptic Gregorian calendar, with day 0 the
  first of January 1970.
\<close>

definition days_from_civil :: "int \<Rightarrow> int \<Rightarrow> int \<Rightarrow> int" where
  "days_from_civil y m d =
     (let y' = (if m \<le> 2 then y - 1 else y);
          era = y' div 400;
          yoe = y' - era * 400;
          doy = (153 * (if m > 2 then m - 3 else m + 9) + 2) div 5 + d - 1;
          doe = yoe * 365 + yoe div 4 - yoe div 100 + doy
      in era * 146097 + doe - 719468)"

definition civil_from_days :: "int \<Rightarrow> int \<times> int \<times> int" where
  "civil_from_days z0 =
     (let z = z0 + 719468;
          era = z div 146097;
          doe = z - era * 146097;
          yoe = (doe - doe div 1460 + doe div 36524 - doe div 146096) div 365;
          doy = doe - (365 * yoe + yoe div 4 - yoe div 100);
          mp = (5 * doy + 2) div 153;
          d = doy - (153 * mp + 2) div 5 + 1;
          m = (if mp < 10 then mp + 3 else mp - 9);
          y = yoe + era * 400 + (if m \<le> 2 then 1 else 0)
      in (y, m, d))"

definition decimal :: "string \<Rightarrow> int" where
  "decimal ds = int (foldl (\<lambda>n c. 10 * n + digit_val c) 0 ds)"

definition utc_date_parse :: "string \<Rightarrow> int option" where
  "utc_date_parse s =
     (if map (\<lambda>c. if is_digit c then CHR ''0'' else c) s = ''0000-00-00 00:00:00''
      then (let y = decimal (take 4 s); mo = decimal (take 2 (drop 5 s));
                d = decimal (take 2 (drop 8 s)); h = decimal (take 2 (drop 11 s));
                mi = decimal (take 2 (drop 14 s)); se = decimal (take 2 (drop 17 s))
            in if 1 \<le> mo \<and> mo \<le> 12 \<and> 1 \<le> d \<and> d \<le> 31 \<and> h \<le> 23 \<and> mi \<le> 59 \<and> se \<le> 59
               then Some ((((days_from_civil y mo d * 24 + h) * 60 + mi) * 60 + se) * 1000)
               else None)
      else None)"

definition utc_format :: "int \<Rightarrow> string" where
  "utc_format t =
     (let secs = t div 1000; day = secs div 86400; r = secs mod 86400;
          (y, m, d) = civil_from_days day
      in toString (nat y) @ ''/'' @ two_digits (nat m) @ ''/'' @ two_digits (nat d) @ '' ''
         @ two_digits (nat (r div 3600)) @ '':'' @ two_digits (nat (r mod 3600 div 60)) @ '':''
         @ two_digits (nat (r mod 60)))"

definition utc_host :: host where
  "utc_host = \<lparr>date_parse = utc_date_parse, toLocaleString_zhCN = utc_format\<rparr>"

section \<open>The report, in the words of the specification\<close>

text \<open>
  \<open>has_valid_time\<close>: the record has a valid parsed time; \<open>record_instant\<close> and
  \<open>record_formatted\<close>: its instant and display text; \<open>displayed_duration\<close>: the display
  rule of the specification, whole hours when they round to a value other than zero, whole
  minutes otherwise; \<open>delta_between\<close>: the report item for two records. \<open>sample_batch\<close> is
  a batch to run the report on: two records with the same time, one with a time that does
  not parse and one without the parameter among them.
\<close>

definition has_valid_time :: "qr_record \<Rightarrow> bool" where
  "has_valid_time d = (case parsedTime d of None \<Rightarrow> False | Some pt \<Rightarrow> valid pt)"

definition record_instant :: "qr_record \<Rightarrow> int" where
  "record_instant d =
     (case parsedTime d of Some (TimeParsed _ _ _ t) \<Rightarrow> t | _ \<Rightarrow> 0)"

definition record_formatted :: "qr_record \<Rightarrow> string" where
  "record_formatted d =
     (case parsedTime d of Some (TimeParsed _ _ f _) \<Rightarrow> f | _ \<Rightarrow> [])"

definition displayed_duration :: "int \<Rightarrow> duration" where
  "displayed_duration delta =
     (if Math_round (of_int delta / 3600000) \<noteq> 0
      then Hours (Math_round (of_int delta / 3600000))
      else Minutes (Math_round (of_int delta / 60000)))"

definition delta_between :: "qr_record \<Rightarrow> qr_record \<Rightarrow> delta_item" where
  "delta_between c n =
     \<lparr>fromFile = fileName c, toFile = fileName n,
      differ = displayed_duration (record_instant n - record_instant c),
      fromTime = record_formatted c, toTime = record_formatted n\<rparr>"

definition entry_of_record :: "qr_record \<Rightarrow> time_entry" where
  "entry_of_record d =
     \<lparr>tFileName = fileName d, tFormatted = record_formatted d, tTimestamp = record_instant d\<rparr>"

text \<open>\<open>differences_below_2_53\<close>: the instants of the records with a valid time, taken in
  ascending order, lie less than \<open>2^53\<close> milliseconds from one to the next. This is where
  the exact arithmetic of \<open>delta_of\<close> is the double arithmetic of the source.\<close>

definition differences_below_2_53 :: "qr_record list \<Rightarrow> bool" where
  "differences_below_2_53 qrData =
     (let s = sort_key record_instant (filter has_valid_time qrData)
      in list_all (\<lambda>(c, n). record_instant n - record_instant c < 2 ^ 53) (zip s (tl s)))"

definition sample_batch :: "qr_record list" where
  "sample_batch =
     [parseQRContent utc_host ''id=1&createTime=2024-01-01 12:30:00'' ''a.png'',
      parseQRContent utc_host ''id=2&createTime=soon'' ''b.png'',
      parseQRContent utc_host ''id=3&createTime=2024-01-01T10:00:00'' ''c.png'',
      parseQRContent utc_host ''id=4'' ''d.png'',
      parseQRContent utc_host ''id=5&createTime=2024-01-01 12:30:00'' ''e.png'',
      parseQRContent utc_host ''id=6&createTime=2024-01-01 12:49:00'' ''f.png'']"


section \<open>The extractor and the table, in the words of the specification\<close>

text \<open>
  \<open>first_piece c s\<close> is the text before the first \<open>c\<close> (all of \<open>s\<close> when there is none) and
  \<open>after_first c s\<close> the text after it. For a segment of the bare form, \<open>bare_key\<close> and
  \<open>bare_val\<close> are the two pieces the source takes from \<open>pair.split('=', 2)\<close>; the segment is
  \<open>decodable\<close> when \<open>decodeURIComponent\<close> accepts both, and \<open>decoded_pair\<close> is then the pair
  that is assigned.
\<close>

definition first_piece :: "char \<Rightarrow> string \<Rightarrow> string" where
  "first_piece c s = takeWhile (\<lambda>x. x \<noteq> c) s"

definition after_first :: "char \<Rightarrow> string \<Rightarrow> string" where
  "after_first c s = tl (dropWhile (\<lambda>x. x \<noteq> c) s)"

definition has_eq :: "string \<Rightarrow> bool" where
  "has_eq p = (CHR ''='' \<in> set p)"

definition bare_key :: "string \<Rightarrow> string" where
  "bare_key p = first_piece (CHR ''='') p"

definition bare_val :: "string \<Rightarrow> string" where
  "bare_val p = first_piece (CHR ''='') (after_first (CHR ''='') p)"

definition decodes :: "string \<Rightarrow> bool" where
  "decodes s = (case decodeURIComponent s of Inl _ \<Rightarrow> False | Inr _ \<Rightarrow> True)"

definition decoded :: "string \<Rightarrow> string" where
  "decoded s = (case decodeURIComponent s of Inl _ \<Rightarrow> [] | Inr v \<Rightarrow> v)"

definition decodable :: "string \<Rightarrow> bool" where
  "decodable p = (decodes (bare_key p) \<and> decodes (bare_val p))"

definition decoded_pair :: "string \<Rightarrow> string \<times> string" where
  "decoded_pair p = (decoded (bare_key p), decoded (bare_val p))"

text \<open>
  \<open>batch_keys\<close>: the union of the parameter keys of all records; \<open>cell_or_sentinel\<close>: the
  value of a record for a key, the empty string when the record has no such key.
  \<open>signature_batch\<close> is a batch of two records to run the table on.
\<close>

definition batch_keys :: "qr_record list \<Rightarrow> string set" where
  "batch_keys qrData = set (concat (map (\<lambda>d. Object_keys (params d)) qrData))"

definition cell_or_sentinel :: "qr_record \<Rightarrow> string \<Rightarrow> js_val" where
  "cell_or_sentinel d k = (case map_of (params d) k of Some v \<Rightarrow> Str v | None \<Rightarrow> Str [])"

definition signature_batch :: "qr_record list" where
  "signature_batch =
     [parseQRContent utc_host ''id=7&sig=abc&t=1'' ''a.png'',
      parseQRContent utc_host ''p?sig=xyz&t=1&zone=3'' ''b.png'']"

section \<open>Proofs\<close>

subsection \<open>The Time Mutator\<close>

lemma match_atoms_SomeD:
  "match_atoms as s = Some (m, r) \<Longrightarrow> s = m @ r \<and> list_all2 atom_ok as m"
  by (induction as s arbitrary: m r rule: match_atoms.induct)
     (auto split: if_splits option.splits)

lemma match_atoms_SomeI:
  "list_all2 atom_ok as m \<Longrightarrow> match_atoms as (m @ r) = Some (m, r)"
  by (induction as m rule: list_all2_induct) auto

lemma match_groups_SomeD:
  "match_groups gs s = Some (ms, r) \<Longrightarrow> s = concat ms @ r \<and> list_all2 (list_all2 atom_ok) gs ms"
  by (induction gs arbitrary: s ms r) (auto split: option.splits dest!: match_atoms_SomeD)

lemma match_groups_SomeI:
  "list_all2 (list_all2 atom_ok) gs ms \<Longrightarrow> match_groups gs (concat ms @ r) = Some (ms, r)"
  by (induction gs ms rule: list_all2_induct) (auto simp: match_atoms_SomeI)

lemma match_here_SomeD:
  assumes "match_here i s = Some m"
  shows "index m = i \<and> fullMatch m = ''createTime='' @ datePart m @ sep m @ hourStr m @ rest m
     \<and> s = fullMatch m @ drop 30 s
     \<and> is_date (datePart m) \<and> sep m \<in> {'' '', ''T''}
     \<and> (\<exists>a b. hourStr m = [a, b] \<and> is_digit a \<and> is_digit b)
     \<and> is_min_sec (rest m)"
proof -
  from assms obtain h d sp hh r tl where
    mg: "match_groups createTime_regex s = Some ([h, d, sp, hh, r], tl)"
    and m: "m = \<lparr>index = i, fullMatch = h @ d @ sp @ hh @ r,
                datePart = d, sep = sp, hourStr = hh, rest = r\<rparr>"
    by (auto simp: match_here_def split: option.splits list.splits prod.splits)
  from match_groups_SomeD[OF mg] have s: "s = h @ d @ sp @ hh @ r @ tl"
    and sh: "list_all2 (list_all2 atom_ok) createTime_regex [h, d, sp, hh, r]"
    by simp_all
  from sh have h: "h = ''createTime=''"
    by (simp add: createTime_regex_def list_all2_Cons1)
  from sh have d: "is_date d"
    by (auto simp add: createTime_regex_def list_all2_Cons1 is_date_def)
  from sh have sp: "sp \<in> {'' '', ''T''}"
    by (auto simp add: createTime_regex_def list_all2_Cons1)
  from sh have hh: "\<exists>a b. hh = [a, b] \<and> is_digit a \<and> is_digit b"
    by (auto simp add: createTime_regex_def list_all2_Cons1)
  from sh have r: "is_min_sec r"
    by (auto simp add: createTime_regex_def list_all2_Cons1 is_min_sec_def)
  have len: "length (h @ d @ sp @ hh @ r) = 30"
    using h d sp hh r by (auto simp: is_date_def is_min_sec_def split: list.splits)
  show ?thesis
    using h d sp hh r s len by (simp add: m)
qed

lemma digit_val_less: "is_digit c \<Longrightarrow> digit_val c < 10"
  by (auto simp: is_digit_def digit_val_def)

lemma digit_char_digit_val: "is_digit c \<Longrightarrow> digit_char (digit_val c) = c"
  by (auto simp: is_digit_def digit_val_def digit_char_def)

lemma less_ten_cases: "(m::nat) < 10 \<Longrightarrow> m \<in> {0, 1, 2, 3, 4, 5, 6, 7, 8, 9}"
  by auto

lemma mod_ten_cases: "(n::nat) mod 10 \<in> {0, 1, 2, 3, 4, 5, 6, 7, 8, 9}"
  by (rule less_ten_cases) simp

lemma digit_val_digit_char: "digit_val (digit_char n) = n mod 10"
  using mod_ten_cases[of n] by (auto simp: digit_val_def digit_char_def)

lemma is_digit_digit_char: "is_digit (digit_char n)"
  using mod_ten_cases[of n] by (auto simp: is_digit_def digit_char_def)

lemma parseInt10_two:
  "is_digit a \<Longrightarrow> is_digit b \<Longrightarrow> parseInt10 [a, b] = Some (10 * digit_val a + digit_val b)"
  by (simp add: parseInt10_def)

declare toString.simps [simp del]

lemma toString_two_digits: "n < 100 \<Longrightarrow> padStart 2 (CHR ''0'') (toString n) = two_digits n"
proof (cases "n < 10")
  case True
  then show ?thesis
    by (simp add: toString.simps[of n] padStart_def two_digits_def digit_char_def)
next
  case False
  assume "n < 100"
  with False have "n div 10 < 10" by simp
  with False show ?thesis
    by (simp add: toString.simps[of n] toString.simps[of "n div 10"] padStart_def two_digits_def)
qed

lemma newHourStr_two:
  assumes "is_digit a" "is_digit b"
  shows "newHourStr [a, b] = two_digits ((10 * digit_val a + digit_val b + 1) mod 24)"
proof -
  have "(10 * digit_val a + digit_val b + 1) mod 24 < 100"
    by (rule less_trans[of _ 24]) simp_all
  then show ?thesis
    using assms by (simp add: newHourStr_def parseInt10_two toString_two_digits)
qed

lemma hour_bump_arith:
  fixes n da db :: nat
  assumes "da = n div 10 mod 10" "db = n mod 10" "n = (10 * da + db + 1) mod 24"
  shows False
proof -
  have n: "n < 24" using assms(3) by simp
  then have "n div 10 < 10" by simp
  then have "10 * da + db = n" using assms(1,2) by simp
  with assms(3) have eq: "n = (n + 1) mod 24" by simp
  show False
  proof (cases "n = 23")
    case True
    with eq show False by simp
  next
    case False
    with n have "n + 1 < 24" by simp
    with eq show False by simp
  qed
qed

lemma two_digits_changed:
  assumes "is_digit a" "is_digit b"
  shows "two_digits ((10 * digit_val a + digit_val b + 1) mod 24) \<noteq> [a, b]"
proof
  let ?n = "(10 * digit_val a + digit_val b + 1) mod 24"
  assume eq: "two_digits ?n = [a, b]"
  then have "digit_val a = (?n div 10) mod 10" "digit_val b = ?n mod 10"
    by (simp_all add: two_digits_def digit_val_digit_char[symmetric])
  then show False
    by (rule hour_bump_arith) (rule refl)
qed

lemma match_here_index: "match_here i s = None \<longleftrightarrow> match_here j s = None"
  by (auto simp: match_here_def split: option.splits list.splits prod.splits)

lemma matches_at_drop: "matches_at t i = matches_at (drop i t) 0"
  by (simp add: matches_at_def)

lemma match_here_matches: "match_here i s = Some m \<Longrightarrow> matches_at s 0"
proof -
  assume a: "match_here i s = Some m"
  from match_here_SomeD[OF a] obtain a b where
    s: "s = ''createTime='' @ datePart m @ sep m @ [a, b] @ rest m @ drop 30 s"
    and d: "is_date (datePart m)" and sp: "sep m \<in> {'' '', ''T''}"
    and h: "is_digit a" "is_digit b" and r: "is_min_sec (rest m)"
    by auto
  from d obtain y1 y2 y3 y4 m1 m2 d1 d2 where
    dd: "datePart m = [y1, y2, y3, y4, CHR ''-'', m1, m2, CHR ''-'', d1, d2]"
    by (auto simp: is_date_def split: list.splits)
  from r obtain n1 n2 s1 s2 where
    rr: "rest m = [CHR '':'', n1, n2, CHR '':'', s1, s2]"
    by (auto simp: is_min_sec_def split: list.splits)
  from sp obtain c where cc: "sep m = [c]" "c = CHR '' '' \<or> c = CHR ''T''"
    by auto
  have "matches_at (''createTime='' @ datePart m @ sep m @ [a, b] @ rest m @ drop 30 s) 0"
    using d r h cc unfolding dd rr matches_at_def
    by (auto simp: Let_def)
  with s show ?thesis by simp
qed

lemma matches_match_here:
  assumes "matches_at s 0"
  shows "\<exists>m. match_here i s = Some m"
proof -
  let ?h = "take 11 s" and ?d = "take 10 (drop 11 s)" and ?sp = "take 1 (drop 21 s)"
  let ?hh = "take 2 (drop 22 s)" and ?r = "take 6 (drop 24 s)"
  from assms have h: "?h = ''createTime=''" and d: "is_date ?d"
    and sp: "?sp \<in> {'' '', ''T''}" and hh: "length ?hh = 2" "list_all is_digit ?hh"
    and r: "is_min_sec ?r"
    by (simp_all add: matches_at_def Let_def)
  have split: "s = concat [?h, ?d, ?sp, ?hh, ?r] @ drop 30 s"
  proof -
    have "s = ?h @ drop 11 s" by simp
    also have "drop 11 s = ?d @ drop 21 s"
      using append_take_drop_id[of 10 "drop 11 s"] by simp
    also have "drop 21 s = ?sp @ drop 22 s"
      using append_take_drop_id[of 1 "drop 21 s"] by simp
    also have "drop 22 s = ?hh @ drop 24 s"
      using append_take_drop_id[of 2 "drop 22 s"] by simp
    also have "drop 24 s = ?r @ drop 30 s"
      using append_take_drop_id[of 6 "drop 24 s"] by simp
    finally show ?thesis by simp
  qed
  from d obtain y1 y2 y3 y4 m1 m2 d1 d2 where
    dd: "?d = [y1, y2, y3, y4, CHR ''-'', m1, m2, CHR ''-'', d1, d2]"
    and ddig: "list_all is_digit [y1, y2, y3, y4, m1, m2, d1, d2]"
    by (auto simp: is_date_def split: list.splits)
  from r obtain n1 n2 s1 s2 where
    rr: "?r = [CHR '':'', n1, n2, CHR '':'', s1, s2]"
    and rdig: "list_all is_digit [n1, n2, s1, s2]"
    by (auto simp: is_min_sec_def split: list.splits)
  from hh obtain a b where ab: "?hh = [a, b]" "is_digit a" "is_digit b"
    by (cases ?hh; cases "tl ?hh") auto
  have shape: "list_all2 (list_all2 atom_ok) createTime_regex [?h, ?d, ?sp, ?hh, ?r]"
    unfolding h dd rr ab(1) createTime_regex_def
    using sp ddig rdig ab(2,3) by auto
  from match_groups_SomeI[OF shape, of "drop 30 s"] split
  have "match_groups createTime_regex s = Some ([?h, ?d, ?sp, ?hh, ?r], drop 30 s)"
    by simp
  then show ?thesis
    by (simp add: match_here_def)
qed

lemma match_here_None_iff: "match_here i (drop k t) = None \<longleftrightarrow> \<not> matches_at t k"
  using match_here_matches[of i "drop k t"] matches_match_here[of "drop k t" i]
    matches_at_drop[of t k]
  by (cases "match_here i (drop k t)") auto

lemma regex_exec_from_Some:
  "regex_exec_from i s = Some m \<Longrightarrow>
     \<exists>k\<le>length s. index m = i + k \<and> match_here (i + k) (drop k s) = Some m
        \<and> (\<forall>j<k. match_here (i + j) (drop j s) = None)"
proof (induction s arbitrary: i)
  case Nil
  then show ?case using match_here_SomeD[of i "[]" m] by simp
next
  case (Cons c cs)
  show ?case
  proof (cases "match_here i (c # cs)")
    case (Some m')
    with Cons.prems have "m' = m" by simp
    with Some match_here_SomeD[of i "c # cs" m] show ?thesis
      by (intro exI[of _ 0]) simp
  next
    case None
    with Cons.prems have "regex_exec_from (Suc i) cs = Some m" by simp
    from Cons.IH[OF this] obtain k where k: "k \<le> length cs" "index m = Suc i + k"
      "match_here (Suc i + k) (drop k cs) = Some m"
      "\<forall>j<k. match_here (Suc i + j) (drop j cs) = None"
      by blast
    have "\<forall>j<Suc k. match_here (i + j) (drop j (c # cs)) = None"
    proof (intro allI impI)
      fix j assume "j < Suc k"
      then show "match_here (i + j) (drop j (c # cs)) = None"
        using None k(4) by (cases j) auto
    qed
    with k(1-3) show ?thesis
      by (intro exI[of _ "Suc k"]) simp
  qed
qed

lemma regex_exec_from_None:
  "regex_exec_from i s = None \<Longrightarrow> match_here (i + j) (drop j s) = None"
proof (induction s arbitrary: i j)
  case Nil
  then show ?case using match_here_index[of i "[]" "i + j"] by simp
next
  case (Cons c cs)
  from Cons.prems have here: "match_here i (c # cs) = None"
    and later: "regex_exec_from (Suc i) cs = None"
    by (auto split: option.splits)
  show ?case
  proof (cases j)
    case 0
    with here show ?thesis by simp
  next
    case (Suc j')
    with Cons.IH[OF later, of j'] show ?thesis by simp
  qed
qed

lemma regex_exec_Some:
  assumes "regex_exec t = Some m"
  shows "index m \<le> length t \<and> match_here (index m) (drop (index m) t) = Some m
     \<and> matches_at t (index m) \<and> (\<forall>j<index m. \<not> matches_at t j)"
proof -
  from regex_exec_from_Some[of 0 t m] assms obtain k where
    k: "k \<le> length t" "index m = k" "match_here k (drop k t) = Some m"
    "\<forall>j<k. match_here j (drop j t) = None"
    by (auto simp: regex_exec_def)
  from k(3) have "matches_at t k"
    using match_here_None_iff[of k k t] by simp
  moreover from k(4) have "\<forall>j<k. \<not> matches_at t j"
    using match_here_None_iff by blast
  ultimately show ?thesis using k(1-3) by simp
qed

lemma regex_exec_None: "regex_exec t = None \<Longrightarrow> \<not> matches_at t k"
  using regex_exec_from_None[of 0 t k] match_here_None_iff[of k k t]
  by (simp add: regex_exec_def)

lemma regex_exec_None_iff: "regex_exec t = None \<longleftrightarrow> (\<forall>k. \<not> matches_at t k)"
  using regex_exec_None[of t] regex_exec_Some[of t]
  by (cases "regex_exec t") auto

lemma modifyCreateTime_Some:
  assumes "regex_exec t = Some m"
  shows "\<exists>a b. hourStr m = [a, b] \<and> is_digit a \<and> is_digit b
     \<and> length (take (index m) t @ ''createTime='' @ datePart m @ sep m) = index m + 22
     \<and> length (rest m) = 6
     \<and> t = take (index m) t @ ''createTime='' @ datePart m @ sep m @ [a, b] @ rest m
           @ drop (index m + 30) t
     \<and> modifyCreateTime t =
         take (index m) t @ ''createTime='' @ datePart m @ sep m
           @ two_digits ((10 * digit_val a + digit_val b + 1) mod 24) @ rest m
           @ drop (index m + 30) t"
proof -
  let ?i = "index m"
  from regex_exec_Some[OF assms] have i: "?i \<le> length t"
    and mh: "match_here ?i (drop ?i t) = Some m"
    by simp_all
  from match_here_SomeD[OF mh] obtain a b where
    full: "fullMatch m = ''createTime='' @ datePart m @ sep m @ hourStr m @ rest m"
    and dr: "drop ?i t = fullMatch m @ drop 30 (drop ?i t)"
    and d: "is_date (datePart m)" and sp: "sep m \<in> {'' '', ''T''}"
    and h: "hourStr m = [a, b]" "is_digit a" "is_digit b" and r: "is_min_sec (rest m)"
    by auto
  have ld: "length (datePart m) = 10"
    using d by (auto simp: is_date_def split: list.splits)
  have lr: "length (rest m) = 6"
    using r by (auto simp: is_min_sec_def split: list.splits)
  have ls: "length (sep m) = 1"
    using sp by auto
  have lf: "length (fullMatch m) = 30"
    by (simp add: full ld lr ls h(1))
  have "t = take ?i t @ drop ?i t" by simp
  also have "drop ?i t = fullMatch m @ drop (?i + 30) t"
    using dr by (simp add: add.commute)
  finally have t: "t = take ?i t @ ''createTime='' @ datePart m @ sep m @ [a, b] @ rest m
      @ drop (?i + 30) t"
    by (simp add: full h(1))
  have "modifyCreateTime t =
      take ?i t @ (''createTime='' @ newTime m) @ drop (?i + length (fullMatch m)) t"
    using assms by (simp add: modifyCreateTime_def regex_replace_def)
  then have mt: "modifyCreateTime t = take ?i t @ ''createTime='' @ datePart m @ sep m
      @ two_digits ((10 * digit_val a + digit_val b + 1) mod 24) @ rest m @ drop (?i + 30) t"
    by (simp add: lf newTime_def h(1) newHourStr_two[OF h(2,3)])
  have "length (take ?i t @ ''createTime='' @ datePart m @ sep m) = ?i + 22"
    using i by (simp add: ld ls)
  with h lr t mt show ?thesis by blast
qed

lemma nth_middle_two:
  assumes "j \<noteq> length p" "j \<noteq> length p + 1"
  shows "(p @ [a, b] @ s) ! j = (p @ [c, d] @ s) ! j"
proof (cases "j < length p")
  case True
  then show ?thesis by (simp add: nth_append)
next
  case False
  define n where "n = j - (length p + 2)"
  from False assms have "j = length p + 2 + n"
    by (simp add: n_def)
  then show ?thesis by (simp add: nth_append)
qed

lemma digit_not_dollar: "is_digit c \<Longrightarrow> c \<noteq> CHR ''$''"
  by (auto simp: is_digit_def)

lemma digit_char_not_dollar: "CHR ''$'' \<noteq> digit_char n"
  using digit_not_dollar[OF is_digit_digit_char[of n]] by (rule not_sym)

lemma replacement_no_dollar:
  assumes "regex_exec t = Some m"
  shows "CHR ''$'' \<notin> set (''createTime='' @ newTime m)"
proof -
  from regex_exec_Some[OF assms] have mh: "match_here (index m) (drop (index m) t) = Some m"
    by simp
  from match_here_SomeD[OF mh] obtain a b where
    d: "is_date (datePart m)" and sp: "sep m \<in> {'' '', ''T''}"
    and h: "hourStr m = [a, b]" "is_digit a" "is_digit b" and r: "is_min_sec (rest m)"
    by auto
  have "CHR ''$'' \<notin> set (datePart m)"
    using d by (auto simp: is_date_def split: list.splits dest: digit_not_dollar)
  moreover have "CHR ''$'' \<notin> set (rest m)"
    using r by (auto simp: is_min_sec_def split: list.splits dest: digit_not_dollar)
  moreover have "CHR ''$'' \<notin> set (sep m)"
    using sp by auto
  moreover have "CHR ''$'' \<notin> set (newHourStr (hourStr m))"
    by (simp add: h(1) newHourStr_two[OF h(2,3)] two_digits_def digit_char_not_dollar)
  ultimately show ?thesis by (simp add: newTime_def)
qed

text \<open>
  Claim C1. Whenever the pattern of the Time Mutator stands somewhere in the text, the
  search finds its first occurrence (no occurrence starts further left), with a date
  \<open>NNNN-NN-NN\<close>, a separator that is a space or \<open>T\<close>, a two-digit hour \<open>ab\<close> and a suffix
  \<open>:NN:NN\<close>. The hour is read as the integer \<open>10a + b\<close>; the result is the input with
  exactly this occurrence rewritten: head, date, separator and suffix as they were, the
  hour replaced by \<open>(10a + b + 1) mod 24\<close> zero-padded to two digits (so 23 becomes 00
  and the date stays). The result has the length of the input and differs from it at
  most at the two positions of the hour; every other character is the same.
\<close>

theorem modifyCreateTime_bumps_hour_of_first_match:
  assumes "matches_at t k"
  shows "\<exists>m a b. regex_exec t = Some m \<and> index m \<le> k
     \<and> matches_at t (index m) \<and> (\<forall>j<index m. \<not> matches_at t j)
     \<and> is_date (datePart m) \<and> sep m \<in> {'' '', ''T''} \<and> is_min_sec (rest m)
     \<and> hourStr m = [a, b] \<and> is_digit a \<and> is_digit b
     \<and> parseInt10 (hourStr m) = Some (10 * digit_val a + digit_val b)
     \<and> t = take (index m) t @ ''createTime='' @ datePart m @ sep m @ hourStr m @ rest m
           @ drop (index m + 30) t
     \<and> modifyCreateTime t =
         take (index m) t @ ''createTime='' @ datePart m @ sep m
           @ two_digits ((10 * digit_val a + digit_val b + 1) mod 24) @ rest m
           @ drop (index m + 30) t
     \<and> length (modifyCreateTime t) = length t
     \<and> (\<forall>j<length t. j \<noteq> index m + 22 \<and> j \<noteq> index m + 23 \<longrightarrow>
           modifyCreateTime t ! j = t ! j)"
proof -
  from assms obtain m where ex: "regex_exec t = Some m"
    using regex_exec_None[of t k] by (cases "regex_exec t") auto
  from regex_exec_Some[OF ex] have i: "matches_at t (index m)"
    "\<forall>j<index m. \<not> matches_at t j"
    and mh: "match_here (index m) (drop (index m) t) = Some m"
    by simp_all
  from i(2) assms have le: "index m \<le> k"
    by (meson not_le)
  from match_here_SomeD[OF mh] have shape: "is_date (datePart m)" "sep m \<in> {'' '', ''T''}"
    "is_min_sec (rest m)"
    by simp_all
  let ?p = "take (index m) t @ ''createTime='' @ datePart m @ sep m"
  let ?s = "rest m @ drop (index m + 30) t"
  from modifyCreateTime_Some[OF ex] obtain a b where
    h: "hourStr m = [a, b]" "is_digit a" "is_digit b"
    and lp: "length ?p = index m + 22"
    and t: "t = ?p @ [a, b] @ ?s"
    and mt: "modifyCreateTime t =
      ?p @ two_digits ((10 * digit_val a + digit_val b + 1) mod 24) @ ?s"
    by auto
  let ?n = "(10 * digit_val a + digit_val b + 1) mod 24"
  have len: "length (modifyCreateTime t) = length t"
    by (subst mt, subst (2) t) (simp add: two_digits_def)
  have same: "\<forall>j<length t. j \<noteq> index m + 22 \<and> j \<noteq> index m + 23 \<longrightarrow>
      modifyCreateTime t ! j = t ! j"
  proof (intro allI impI)
    fix j assume "j < length t" and j: "j \<noteq> index m + 22 \<and> j \<noteq> index m + 23"
    then have "j \<noteq> length ?p" "j \<noteq> length ?p + 1"
      unfolding lp by simp_all
    from nth_middle_two[OF this, of "digit_char (?n div 10)" "digit_char ?n" ?s a b]
    show "modifyCreateTime t ! j = t ! j"
      by (subst mt, subst (2) t) (simp add: two_digits_def)
  qed
  from t h(1) have t': "t = take (index m) t @ ''createTime='' @ datePart m @ sep m
      @ hourStr m @ rest m @ drop (index m + 30) t"
    by simp
  from mt have mt': "modifyCreateTime t =
         take (index m) t @ ''createTime='' @ datePart m @ sep m
           @ two_digits ((10 * digit_val a + digit_val b + 1) mod 24) @ rest m
           @ drop (index m + 30) t"
    by simp
  have pi: "parseInt10 (hourStr m) = Some (10 * digit_val a + digit_val b)"
    by (simp add: h(1) parseInt10_two[OF h(2,3)])
  from ex le i shape h pi t' mt' len same show ?thesis
    by blast
qed

theorem modifyCreateTime_bumps_hour_witness:
  "matches_at ''id=7&createTime=2024-01-01 23:00:00&sig=abc'' 5
   \<and> modifyCreateTime ''id=7&createTime=2024-01-01 23:00:00&sig=abc''
       = ''id=7&createTime=2024-01-01 00:00:00&sig=abc''
   \<and> modifyCreateTime ''createTime=2024-01-01T05:00:00'' = ''createTime=2024-01-01T06:00:00''
   \<and> modifyCreateTime ''createTime=2024-01-01T06:00:00'' = ''createTime=2024-01-01T07:00:00''
   \<and> length (modifyCreateTime ''id=7&createTime=2024-01-01 23:00:00&sig=abc'')
       = length ''id=7&createTime=2024-01-01 23:00:00&sig=abc''"
proof -
  have h: "matches_at ''id=7&createTime=2024-01-01 23:00:00&sig=abc'' 5"
    by code_simp
  have r: "modifyCreateTime ''id=7&createTime=2024-01-01 23:00:00&sig=abc''
       = ''id=7&createTime=2024-01-01 00:00:00&sig=abc''"
    "modifyCreateTime ''createTime=2024-01-01T05:00:00'' = ''createTime=2024-01-01T06:00:00''"
    "modifyCreateTime ''createTime=2024-01-01T06:00:00'' = ''createTime=2024-01-01T07:00:00''"
    by code_simp+
  from modifyCreateTime_bumps_hour_of_first_match[OF h]
  have "length (modifyCreateTime ''id=7&createTime=2024-01-01 23:00:00&sig=abc'')
       = length ''id=7&createTime=2024-01-01 23:00:00&sig=abc''"
    by blast
  with h r show ?thesis by blast
qed

lemma modifyCreateTime_changes:
  assumes "regex_exec t = Some m"
  shows "modifyCreateTime t \<noteq> t"
proof
  assume same: "modifyCreateTime t = t"
  let ?p = "take (index m) t @ ''createTime='' @ datePart m @ sep m"
  let ?s = "rest m @ drop (index m + 30) t"
  from modifyCreateTime_Some[OF assms] obtain a b where
    h: "is_digit a" "is_digit b"
    and t: "t = ?p @ [a, b] @ ?s"
    and mt: "modifyCreateTime t =
      ?p @ two_digits ((10 * digit_val a + digit_val b + 1) mod 24) @ ?s"
    by auto
  from same mt have "t = ?p @ two_digits ((10 * digit_val a + digit_val b + 1) mod 24) @ ?s"
    by simp
  with t have "?p @ [a, b] @ ?s = ?p @ two_digits ((10 * digit_val a + digit_val b + 1) mod 24) @ ?s"
    by simp
  then have "[a, b] = two_digits ((10 * digit_val a + digit_val b + 1) mod 24)"
    by (simp add: two_digits_def)
  with two_digits_changed[OF h] show False by simp
qed

lemma changed_iff_match: "(modifyCreateTime t \<noteq> t) = (\<exists>k. matches_at t k)"
proof (cases "regex_exec t")
  case None
  then have "\<not> (\<exists>k. matches_at t k)"
    by (simp add: regex_exec_None_iff)
  moreover from None have "modifyCreateTime t = t"
    by (simp add: modifyCreateTime_def)
  ultimately show ?thesis by simp
next
  case (Some m)
  from regex_exec_Some[OF Some] have "\<exists>k. matches_at t k" by blast
  moreover from modifyCreateTime_changes[OF Some] have "modifyCreateTime t \<noteq> t" .
  ultimately show ?thesis by simp
qed

text \<open>The two handlers, once a text that is not empty has been decoded: all that is
  left of the outcome depends on the comparison and on the generation.\<close>

lemma base_decoded:
  assumes "decoded_to b t"
  shows "extendQRCodeDeadline_base b =
     (if modifyCreateTime t = t
      then \<lparr>qrText = None, deadline = displayedDeadline t, shown = Some ErrNoCreateTime\<rparr>
      else (case generateQRCode b (modifyCreateTime t) of
              Rejected f \<Rightarrow> failed (displayedDeadline t) f
            | Resolved _ \<Rightarrow>
                \<lparr>qrText = Some (modifyCreateTime t), deadline = displayedDeadline t,
                 shown = Some OkGenerated\<rparr>))"
  using assms
  by (auto simp: decoded_to_def extendQRCodeDeadline_base_def Let_def split: promise.splits)

lemma part001_decoded:
  assumes "decoded_to b t"
  shows "extendQRCodeDeadline_part001 b =
     (case generateQRCode b (modifyCreateTime t) of
        Rejected f \<Rightarrow> failed (displayedDeadline t) f
      | Resolved _ \<Rightarrow>
          \<lparr>qrText = Some (modifyCreateTime t), deadline = displayedDeadline t,
           shown = Some (if modifyCreateTime t \<noteq> t then OkExtended
                         else OkRegeneratedUnchanged)\<rparr>)"
  using assms
  by (auto simp: decoded_to_def extendQRCodeDeadline_part001_def Let_def split: promise.splits)

lemma decoded_to_decoded_browser: "t \<noteq> [] \<Longrightarrow> decoded_to (decoded_browser t ok) t"
  by (simp add: decoded_to_def decoded_browser_def)

text \<open>
  Claim C9. When the pattern stands nowhere in the text, \<open>modifyCreateTime\<close> returns the
  text as it is and shows no deadline. This is an ordinary return, not an exception. A
  handler that has decoded such a text, which is not empty, sees the same string:
  base_script.js reports that no \<open>createTime\<close> was found and generates nothing; the later
  version generates the code of the unchanged text and says so, or reports the failure
  of the generation. The witness covers a text without the field, a three-digit hour,
  missing seconds and a date written with another delimiter.
\<close>

theorem modifyCreateTime_no_match_unchanged:
  assumes "\<forall>k. \<not> matches_at t k"
  shows "regex_exec t = None \<and> modifyCreateTime t = t \<and> displayedDeadline t = None
     \<and> (\<forall>b. decoded_to b t \<longrightarrow>
           extendQRCodeDeadline_base b =
             \<lparr>qrText = None, deadline = None, shown = Some ErrNoCreateTime\<rparr>
           \<and> extendQRCodeDeadline_part001 b =
             (case generateQRCode b t of
                Rejected f \<Rightarrow> failed None f
              | Resolved _ \<Rightarrow>
                  \<lparr>qrText = Some t, deadline = None, shown = Some OkRegeneratedUnchanged\<rparr>))"
proof -
  from assms have none: "regex_exec t = None"
    by (simp add: regex_exec_None_iff)
  then have same: "modifyCreateTime t = t" and dl: "displayedDeadline t = None"
    by (simp_all add: modifyCreateTime_def displayedDeadline_def)
  have "extendQRCodeDeadline_base b =
             \<lparr>qrText = None, deadline = None, shown = Some ErrNoCreateTime\<rparr>
           \<and> extendQRCodeDeadline_part001 b =
             (case generateQRCode b t of
                Rejected f \<Rightarrow> failed None f
              | Resolved _ \<Rightarrow>
                  \<lparr>qrText = Some t, deadline = None, shown = Some OkRegeneratedUnchanged\<rparr>)"
    if "decoded_to b t" for b
    using base_decoded[OF that] part001_decoded[OF that] same dl
    by (simp split: promise.splits)
  with none same dl show ?thesis by blast
qed

theorem modifyCreateTime_no_match_witness:
  "(\<forall>k. \<not> matches_at ''no such field here'' k)
   \<and> modifyCreateTime ''no such field here'' = ''no such field here''
   \<and> modifyCreateTime ''createTime=2024-01-01 123:00:00'' = ''createTime=2024-01-01 123:00:00''
   \<and> modifyCreateTime ''createTime=2024-01-01 12:00'' = ''createTime=2024-01-01 12:00''
   \<and> modifyCreateTime ''createTime=2024/01/01 12:00:00'' = ''createTime=2024/01/01 12:00:00''
   \<and> decoded_to (decoded_browser ''no such field here'' True) ''no such field here''
   \<and> extendQRCodeDeadline_base (decoded_browser ''no such field here'' True) =
       \<lparr>qrText = None, deadline = None, shown = Some ErrNoCreateTime\<rparr>
   \<and> extendQRCodeDeadline_part001 (decoded_browser ''no such field here'' True) =
       \<lparr>qrText = Some ''no such field here'', deadline = None,
        shown = Some OkRegeneratedUnchanged\<rparr>"
proof -
  have "regex_exec ''no such field here'' = None"
    by code_simp
  then have h: "\<forall>k. \<not> matches_at ''no such field here'' k"
    by (simp add: regex_exec_None_iff)
  have r: "modifyCreateTime ''createTime=2024-01-01 123:00:00'' = ''createTime=2024-01-01 123:00:00''"
    "modifyCreateTime ''createTime=2024-01-01 12:00'' = ''createTime=2024-01-01 12:00''"
    "modifyCreateTime ''createTime=2024/01/01 12:00:00'' = ''createTime=2024/01/01 12:00:00''"
    by code_simp+
  have d: "decoded_to (decoded_browser ''no such field here'' True) ''no such field here''"
    by (rule decoded_to_decoded_browser) simp
  have g: "generateQRCode (decoded_browser ''no such field here'' True) ''no such field here''
      = Resolved ()"
    by (simp add: decoded_browser_def)
  from modifyCreateTime_no_match_unchanged[OF h] d g
  have c: "extendQRCodeDeadline_base (decoded_browser ''no such field here'' True) =
       \<lparr>qrText = None, deadline = None, shown = Some ErrNoCreateTime\<rparr>
   \<and> extendQRCodeDeadline_part001 (decoded_browser ''no such field here'' True) =
       \<lparr>qrText = Some ''no such field here'', deadline = None,
        shown = Some OkRegeneratedUnchanged\<rparr>"
    by simp
  from modifyCreateTime_no_match_unchanged[OF h] h r d c show ?thesis
    by blast
qed

text \<open>
  Claim C10. The returned text differs from the input exactly when the pattern stands
  somewhere in the text: the new hour \<open>(h + 1) mod 24\<close>, written with two digits, is
  never the old two-digit hour (also for the hours 24 to 99, which the expression
  accepts). So the comparison of the returned string with the original, by which both
  handlers detect a change, is sound. For a handler that has decoded a text that is not
  empty: base_script.js reports that there is no \<open>createTime\<close> exactly when there was no
  match, and success exactly when there was a match and the generation succeeded; the
  later version reports the extension exactly when there was a match, and the unchanged
  regeneration exactly when there was none, in both cases if the generation succeeded.
\<close>

theorem change_detection_by_equality_sound:
  "(modifyCreateTime t \<noteq> t) = (\<exists>k. matches_at t k)
   \<and> (decoded_to b t \<longrightarrow>
        (shown (extendQRCodeDeadline_base b) = Some ErrNoCreateTime) = (\<not> (\<exists>k. matches_at t k))
      \<and> (shown (extendQRCodeDeadline_base b) = Some OkGenerated)
          = ((\<exists>k. matches_at t k) \<and> generateQRCode b (modifyCreateTime t) = Resolved ())
      \<and> (shown (extendQRCodeDeadline_part001 b) = Some OkExtended)
          = ((\<exists>k. matches_at t k) \<and> generateQRCode b (modifyCreateTime t) = Resolved ())
      \<and> (shown (extendQRCodeDeadline_part001 b) = Some OkRegeneratedUnchanged)
          = (\<not> (\<exists>k. matches_at t k) \<and> generateQRCode b t = Resolved ()))"
proof -
  note iff = changed_iff_match[of t]
  have "(shown (extendQRCodeDeadline_base b) = Some ErrNoCreateTime) = (\<not> (\<exists>k. matches_at t k))
      \<and> (shown (extendQRCodeDeadline_base b) = Some OkGenerated)
          = ((\<exists>k. matches_at t k) \<and> generateQRCode b (modifyCreateTime t) = Resolved ())
      \<and> (shown (extendQRCodeDeadline_part001 b) = Some OkExtended)
          = ((\<exists>k. matches_at t k) \<and> generateQRCode b (modifyCreateTime t) = Resolved ())
      \<and> (shown (extendQRCodeDeadline_part001 b) = Some OkRegeneratedUnchanged)
          = (\<not> (\<exists>k. matches_at t k) \<and> generateQRCode b t = Resolved ())"
    if d: "decoded_to b t"
  proof (cases "modifyCreateTime t = t")
    case True
    with iff have "\<not> (\<exists>k. matches_at t k)" by simp
    with True show ?thesis
      unfolding base_decoded[OF d] part001_decoded[OF d]
      by (simp add: failed_def split: promise.splits)
  next
    case False
    with iff have "\<exists>k. matches_at t k" by simp
    with False show ?thesis
      unfolding base_decoded[OF d] part001_decoded[OF d]
      by (simp add: failed_def split: promise.splits)
  qed
  with iff show ?thesis by blast
qed

theorem change_detection_witness:
  "modifyCreateTime ''createTime=2024-01-01 23:59:59'' \<noteq> ''createTime=2024-01-01 23:59:59''
   \<and> matches_at ''createTime=2024-01-01 23:59:59'' 0
   \<and> modifyCreateTime ''createTime=2024-01-01 99:00:00'' = ''createTime=2024-01-01 04:00:00''
   \<and> decoded_to (decoded_browser ''createTime=2024-01-01 23:59:59'' True)
        ''createTime=2024-01-01 23:59:59''
   \<and> shown (extendQRCodeDeadline_base (decoded_browser ''createTime=2024-01-01 23:59:59'' True))
       = Some OkGenerated
   \<and> shown (extendQRCodeDeadline_part001 (decoded_browser ''createTime=2024-01-01 23:59:59'' True))
       = Some OkExtended
   \<and> shown (extendQRCodeDeadline_part001 (decoded_browser ''createTime=2024-01-01 23:59:59'' False))
       = Some (ErrProcessingFailed QRGenerateFailed)"
proof -
  let ?t = "''createTime=2024-01-01 23:59:59''"
  have h: "matches_at ?t 0"
    by code_simp
  then have ex: "\<exists>k. matches_at ?t k" by blast
  have r: "modifyCreateTime ''createTime=2024-01-01 99:00:00'' = ''createTime=2024-01-01 04:00:00''"
    by code_simp
  have d: "decoded_to (decoded_browser ?t True) ?t"
    by (rule decoded_to_decoded_browser) simp
  have g: "generateQRCode (decoded_browser ?t True) (modifyCreateTime ?t) = Resolved ()"
    by (simp add: decoded_browser_def)
  from change_detection_by_equality_sound[of ?t "decoded_browser ?t True"] ex d g
  have c: "modifyCreateTime ?t \<noteq> ?t
      \<and> shown (extendQRCodeDeadline_base (decoded_browser ?t True)) = Some OkGenerated
      \<and> shown (extendQRCodeDeadline_part001 (decoded_browser ?t True)) = Some OkExtended"
    by simp
  have f: "shown (extendQRCodeDeadline_part001 (decoded_browser ?t False))
       = Some (ErrProcessingFailed QRGenerateFailed)"
    by code_simp
  from h r d c f show ?thesis by blast
qed

subsection \<open>The time interpreter and the time differences\<close>

lemma Math_round_div:
  assumes "0 < b"
  shows "Math_round (of_int a / of_int b) = (2 * a + b) div (2 * b)"
proof -
  have "(of_int a / of_int b + 1 / 2 :: rat) = of_int (2 * a + b) / of_int (2 * b)"
    using assms by (simp add: field_simps)
  then show ?thesis
    unfolding Math_round_def by (simp only: floor_divide_of_int_eq)
qed

lemma Math_round_minutes: "Math_round (of_int a / 60000) = (2 * a + 60000) div 120000"
  using Math_round_div[of 60000 a] by simp

lemma Math_round_hours: "Math_round (of_int a / 3600000) = (2 * a + 3600000) div 7200000"
  using Math_round_div[of 3600000 a] by simp

lemma Math_round_nonneg: "0 \<le> a \<Longrightarrow> 0 \<le> Math_round (of_int a / 3600000)"
  by (simp add: Math_round_hours)

text \<open>What \<open>parseTimeString\<close> hands to the date parser is a part of the string with
  every \<open>T\<close> and \<open>Z\<close> replaced, holds neither letter, and neither starts nor ends with white
  space.\<close>

lemma strip_leading_suffix: "\<exists>k. strip_leading ws s = drop k s"
proof (induction ws s rule: strip_leading.induct)
  case (1 ws s)
  show ?case
  proof (cases "find (\<lambda>w. w \<noteq> [] \<and> take (length w) s = w) ws")
    case None
    then have "strip_leading ws s = drop 0 s"
      by (simp add: strip_leading.simps[of ws s])
    then show ?thesis by blast
  next
    case (Some w)
    from 1[OF Some] obtain k where "strip_leading ws (drop (length w) s) = drop k (drop (length w) s)"
      by blast
    with Some have "strip_leading ws s = drop (length w + k) s"
      by (simp add: strip_leading.simps[of ws s] add.commute)
    then show ?thesis by blast
  qed
qed

lemma strip_leading_done:
  "w \<in> set ws \<Longrightarrow> w \<noteq> [] \<Longrightarrow> take (length w) (strip_leading ws s) \<noteq> w"
proof (induction ws s rule: strip_leading.induct)
  case (1 ws s)
  show ?case
  proof (cases "find (\<lambda>w. w \<noteq> [] \<and> take (length w) s = w) ws")
    case None
    with "1.prems" have "take (length w) s \<noteq> w"
      by (auto simp: find_None_iff)
    with None show ?thesis
      by (simp add: strip_leading.simps[of ws s])
  next
    case (Some v)
    from "1.IH"[OF Some "1.prems"] Some show ?thesis
      by (simp add: strip_leading.simps[of ws s])
  qed
qed

lemma white_space_not_Nil: "w \<in> set white_space \<Longrightarrow> w \<noteq> []"
  by (auto simp: white_space_def)

lemma rev_drop_rev: "rev (drop j (rev y)) = take (length y - j) y"
  by (simp add: rev_drop)

lemma trim_is_part: "\<exists>k n. trim s = take n (drop k s)"
proof -
  obtain k where k: "strip_leading white_space s = drop k s"
    using strip_leading_suffix by blast
  obtain j where j: "strip_leading (map rev white_space) (rev (drop k s)) = drop j (rev (drop k s))"
    using strip_leading_suffix by blast
  have "trim s = rev (drop j (rev (drop k s)))"
    unfolding trim_def k j ..
  also have "\<dots> = take (length (drop k s) - j) (drop k s)"
    by (rule rev_drop_rev)
  finally show ?thesis by blast
qed

lemma trim_no_leading_white_space:
  assumes "w \<in> set white_space"
  shows "take (length w) (trim s) \<noteq> w"
proof
  assume eq: "take (length w) (trim s) = w"
  let ?x = "strip_leading white_space s"
  obtain j where j: "strip_leading (map rev white_space) (rev ?x) = drop j (rev ?x)"
    using strip_leading_suffix by blast
  have "trim s = rev (drop j (rev ?x))"
    unfolding trim_def j ..
  also have "\<dots> = take (length ?x - j) ?x"
    by (rule rev_drop_rev)
  finally have t: "trim s = take (length ?x - j) ?x" .
  from arg_cong[OF eq, of length] have "length w \<le> length (trim s)"
    by simp
  with t have "length w \<le> length ?x - j" by simp
  with eq t have "take (length w) ?x = w"
    by (simp add: min_def)
  with strip_leading_done[OF assms white_space_not_Nil[OF assms], of s] show False by simp
qed

lemma trim_no_trailing_white_space:
  assumes "w \<in> set white_space"
  shows "take (length w) (rev (trim s)) \<noteq> rev w"
proof -
  from assms have "rev w \<in> set (map rev white_space)" by simp
  moreover from assms have "rev w \<noteq> []" by (simp add: white_space_not_Nil)
  ultimately have "take (length (rev w))
      (strip_leading (map rev white_space) (rev (strip_leading white_space s))) \<noteq> rev w"
    by (rule strip_leading_done)
  then show ?thesis by (simp add: trim_def)
qed

lemma cleanTime_no_T_or_Z:
  "CHR ''T'' \<notin> set (trim (replace_TZ s)) \<and> CHR ''Z'' \<notin> set (trim (replace_TZ s))"
proof -
  obtain k n where "trim (replace_TZ s) = take n (drop k (replace_TZ s))"
    using trim_is_part by blast
  then have "set (trim (replace_TZ s)) \<subseteq> set (replace_TZ s)"
    by (metis set_take_subset set_drop_subset subset_trans)
  moreover have "CHR ''T'' \<notin> set (replace_TZ s) \<and> CHR ''Z'' \<notin> set (replace_TZ s)"
    by (auto simp: replace_TZ_def)
  ultimately show ?thesis by blast
qed

text \<open>
  Claim C8. \<open>parseTimeString\<close> is a total function: whatever the raw string, it returns
  one of its two result shapes and raises nothing. It replaces every \<open>T\<close> and \<open>Z\<close> by a
  space, trims, and hands the result to the host's date parser. When that gives no valid
  date the result is not valid, has no instant and keeps the raw string; when it gives
  the time value \<open>t\<close> the result is valid, its instant is \<open>t\<close> (milliseconds since the
  epoch) and the raw string is kept as \<open>original\<close>.
\<close>

theorem parseTimeString_valid_or_not:
  "(date_parse h (trim (replace_TZ raw)) = None \<longrightarrow>
      parseTimeString h raw = TimeFailed raw CannotParseTime
      \<and> \<not> valid (parseTimeString h raw) \<and> instant (parseTimeString h raw) = None
      \<and> original (parseTimeString h raw) = raw)
   \<and> (\<forall>t. date_parse h (trim (replace_TZ raw)) = Some t \<longrightarrow>
      parseTimeString h raw = TimeParsed raw t (toLocaleString_zhCN h t) t
      \<and> valid (parseTimeString h raw) \<and> instant (parseTimeString h raw) = Some t
      \<and> original (parseTimeString h raw) = raw)"
  by (simp add: parseTimeString_def valid_def instant_def)

theorem parseTimeString_witness:
  "date_parse utc_host (trim (replace_TZ ''2024-03-15T10:30:00'')) = Some 1710498600000
   \<and> valid (parseTimeString utc_host ''2024-03-15T10:30:00'')
   \<and> instant (parseTimeString utc_host ''2024-03-15T10:30:00'') = Some 1710498600000
   \<and> original (parseTimeString utc_host ''2024-03-15T10:30:00'') = ''2024-03-15T10:30:00''
   \<and> date_parse utc_host (trim (replace_TZ ''not-a-time'')) = None
   \<and> \<not> valid (parseTimeString utc_host ''not-a-time'')
   \<and> instant (parseTimeString utc_host ''not-a-time'') = None"
proof -
  have a: "date_parse utc_host (trim (replace_TZ ''2024-03-15T10:30:00'')) = Some 1710498600000"
    by code_simp
  have b: "date_parse utc_host (trim (replace_TZ ''not-a-time'')) = None"
    by code_simp
  from parseTimeString_valid_or_not[of utc_host "''2024-03-15T10:30:00''"] a
  have c: "valid (parseTimeString utc_host ''2024-03-15T10:30:00'')
   \<and> instant (parseTimeString utc_host ''2024-03-15T10:30:00'') = Some 1710498600000
   \<and> original (parseTimeString utc_host ''2024-03-15T10:30:00'') = ''2024-03-15T10:30:00''"
    by blast
  from parseTimeString_valid_or_not[of utc_host "''not-a-time''"] b
  have d: "\<not> valid (parseTimeString utc_host ''not-a-time'')
   \<and> instant (parseTimeString utc_host ''not-a-time'') = None"
    by blast
  from a b c d show ?thesis by blast
qed

lemma time_entry_of_eq:
  "time_entry_of d = (if has_valid_time d then Some (entry_of_record d) else None)"
  by (auto simp: time_entry_of_def has_valid_time_def valid_def entry_of_record_def
      record_formatted_def record_instant_def split: option.splits parsed_time.splits)

lemma map_filter_time_entry:
  "List.map_filter time_entry_of qrData = map entry_of_record (filter has_valid_time qrData)"
  by (induction qrData) (simp_all add: List.map_filter_simps time_entry_of_eq)

lemma insort_key_map:
  "insort_key f (e x) (map e xs) = map e (insort_key (\<lambda>y. f (e y)) x xs)"
  by (induction xs) simp_all

lemma sort_key_map: "sort_key f (map e xs) = map e (sort_key (\<lambda>y. f (e y)) xs)"
  by (induction xs) (simp_all add: insort_key_map)

lemma tTimestamp_entry_of_record: "(\<lambda>d. tTimestamp (entry_of_record d)) = record_instant"
  by (rule ext) (simp add: entry_of_record_def)

lemma delta_of_sorted:
  assumes "record_instant c \<le> record_instant n"
  shows "delta_of (entry_of_record c) (entry_of_record n) = delta_between c n"
proof -
  let ?d = "record_instant n - record_instant c"
  from assms have "0 \<le> ?d" by simp
  then have "0 \<le> Math_round (of_int ?d / 3600000)"
    by (rule Math_round_nonneg)
  then have "(Math_round (of_int ?d / 3600000) > 0) = (Math_round (of_int ?d / 3600000) \<noteq> 0)"
    by linarith
  then show ?thesis
    by (simp add: delta_of_def delta_between_def entry_of_record_def displayed_duration_def Let_def)
qed

lemma adjacent_deltas_sorted:
  "sorted (map record_instant xs) \<Longrightarrow>
     adjacent_deltas (map entry_of_record xs) = map (\<lambda>(c, n). delta_between c n) (zip xs (tl xs))"
proof (induction xs)
  case Nil
  then show ?case by simp
next
  case (Cons a xs)
  show ?case
  proof (cases xs)
    case Nil
    then show ?thesis by simp
  next
    case (Cons b ys)
    with Cons.prems have "record_instant a \<le> record_instant b" by simp
    moreover from Cons.prems have "sorted (map record_instant xs)" by simp
    ultimately show ?thesis
      using Cons.IH Cons by (simp add: delta_of_sorted)
  qed
qed

lemma sorted_adjacent_le:
  "sorted (map f xs) \<Longrightarrow> (c, n) \<in> set (zip xs (tl xs)) \<Longrightarrow> f c \<le> (f n :: int)"
proof (induction xs)
  case Nil
  then show ?case by simp
next
  case (Cons a xs)
  show ?case
  proof (cases xs)
    case Nil
    with Cons.prems show ?thesis by simp
  next
    case (Cons b ys)
    with Cons.prems(2) have "(c, n) = (a, b) \<or> (c, n) \<in> set (zip xs (tl xs))"
      by auto
    then show ?thesis
    proof
      assume "(c, n) = (a, b)"
      with Cons.prems(1) Cons show ?thesis by simp
    next
      assume "(c, n) \<in> set (zip xs (tl xs))"
      moreover from Cons.prems(1) have "sorted (map f xs)" by simp
      ultimately show ?thesis by (rule Cons.IH[rotated])
    qed
  qed
qed

text \<open>
  Claim C3. For every batch whose valid instants, in ascending order, lie less than
  \<open>2^53\<close> milliseconds from one to the next (so that the double arithmetic of the source
  is exact arithmetic), the time differences shown are those of the records with a
  valid parsed time, sorted by instant with a stable sort (records with the same instant
  keep their order in the batch), taken pairwise along the sorted list: each item shows
  \<open>next - current\<close> milliseconds, which is never negative, as whole hours when
  \<open>round(delta / 3600000)\<close> is not zero and as whole minutes \<open>round(delta / 60000)\<close>
  otherwise. With fewer than two such records, or fewer than two records at all, there
  is no item. The result of \<open>createComparisonResults\<close> shows the same items.
\<close>

theorem analyzeTimeDifferences_sorted_adjacent_deltas:
  assumes "differences_below_2_53 qrData"
  shows "deltas_of (analyzeTimeDifferences qrData) =
     map (\<lambda>(c, n). delta_between c n)
       (zip (sort_key record_instant (filter has_valid_time qrData))
            (tl (sort_key record_instant (filter has_valid_time qrData))))
   \<and> comparison_deltas (createComparisonResults qrData) = deltas_of (analyzeTimeDifferences qrData)
   \<and> sorted (map record_instant (sort_key record_instant (filter has_valid_time qrData)))
   \<and> (\<forall>t. filter (\<lambda>d. record_instant d = t) (sort_key record_instant (filter has_valid_time qrData))
          = filter (\<lambda>d. record_instant d = t) (filter has_valid_time qrData))
   \<and> (\<forall>(c, n)\<in>set (zip (sort_key record_instant (filter has_valid_time qrData))
            (tl (sort_key record_instant (filter has_valid_time qrData)))).
          0 \<le> record_instant n - record_instant c)"
proof -
  let ?v = "filter has_valid_time qrData"
  let ?s = "sort_key record_instant ?v"
  have sorted: "sorted (map record_instant ?s)"
    by (rule sorted_sort_key)
  have stable: "\<forall>t. filter (\<lambda>d. record_instant d = t) ?s = filter (\<lambda>d. record_instant d = t) ?v"
    by (simp add: sort_key_stable)
  have td: "sort_key tTimestamp (List.map_filter time_entry_of qrData) = map entry_of_record ?s"
    by (simp add: map_filter_time_entry sort_key_map tTimestamp_entry_of_record)
  have len: "length (List.map_filter time_entry_of qrData) = length ?s"
    by (simp add: map_filter_time_entry)
  have main: "deltas_of (analyzeTimeDifferences qrData) = map (\<lambda>(c, n). delta_between c n) (zip ?s (tl ?s))"
  proof (cases "length ?s < 2")
    case True
    then have "zip ?s (tl ?s) = []"
      by (cases ?s; cases "tl ?s") auto
    with True len show ?thesis
      by (simp add: analyzeTimeDifferences_def deltas_of_def Let_def)
  next
    case False
    with len td adjacent_deltas_sorted[OF sorted] show ?thesis
      by (simp add: analyzeTimeDifferences_def deltas_of_def Let_def)
  qed
  have cmp: "comparison_deltas (createComparisonResults qrData) = deltas_of (analyzeTimeDifferences qrData)"
  proof (cases "length qrData < 2")
    case True
    have "length ?v \<le> length qrData" by simp
    with True have "length ?v < 2" by linarith
    then have "length (List.map_filter time_entry_of qrData) < 2"
      by (simp add: map_filter_time_entry)
    with True show ?thesis
      by (simp add: createComparisonResults_def comparison_deltas_def analyzeTimeDifferences_def
          deltas_of_def Let_def)
  next
    case False
    then show ?thesis
      by (simp add: createComparisonResults_def comparison_deltas_def Let_def)
  qed
  have nonneg: "\<forall>(c, n)\<in>set (zip ?s (tl ?s)). 0 \<le> record_instant n - record_instant c"
    using sorted_adjacent_le[OF sorted] by auto
  from main cmp sorted stable nonneg show ?thesis by blast
qed

theorem analyzeTimeDifferences_witness:
  "differences_below_2_53 sample_batch
   \<and> comparison_deltas (createComparisonResults sample_batch) =
     [\<lparr>fromFile = ''c.png'', toFile = ''a.png'', differ = Hours 3,
        fromTime = ''2024/01/01 10:00:00'', toTime = ''2024/01/01 12:30:00''\<rparr>,
      \<lparr>fromFile = ''a.png'', toFile = ''e.png'', differ = Minutes 0,
        fromTime = ''2024/01/01 12:30:00'', toTime = ''2024/01/01 12:30:00''\<rparr>,
      \<lparr>fromFile = ''e.png'', toFile = ''f.png'', differ = Minutes 19,
        fromTime = ''2024/01/01 12:30:00'', toTime = ''2024/01/01 12:49:00''\<rparr>]
   \<and> map fileName (filter has_valid_time sample_batch) = [''a.png'', ''c.png'', ''e.png'', ''f.png'']"
proof -
  have a: "deltas_of (analyzeTimeDifferences sample_batch) =
     [\<lparr>fromFile = ''c.png'', toFile = ''a.png'', differ = Hours 3,
        fromTime = ''2024/01/01 10:00:00'', toTime = ''2024/01/01 12:30:00''\<rparr>,
      \<lparr>fromFile = ''a.png'', toFile = ''e.png'', differ = Minutes 0,
        fromTime = ''2024/01/01 12:30:00'', toTime = ''2024/01/01 12:30:00''\<rparr>,
      \<lparr>fromFile = ''e.png'', toFile = ''f.png'', differ = Minutes 19,
        fromTime = ''2024/01/01 12:30:00'', toTime = ''2024/01/01 12:49:00''\<rparr>]"
    by code_simp
  have b: "map fileName (filter has_valid_time sample_batch) = [''a.png'', ''c.png'', ''e.png'', ''f.png'']"
    by code_simp
  have c: "differences_below_2_53 sample_batch"
    by code_simp
  from analyzeTimeDifferences_sorted_adjacent_deltas[OF c]
  have "comparison_deltas (createComparisonResults sample_batch)
      = deltas_of (analyzeTimeDifferences sample_batch)"
    by blast
  with a b c show ?thesis by simp
qed

text \<open>
  Claim C4, amended. Two records whose parsed times are 9000000 milliseconds (150
  minutes) apart give exactly one time difference, from the first to the second, and it
  is shown as 3 hours: \<open>Math.round(2.5)\<close> is 3. (The claim says 2 hours.) The witness and
  the counterexample run the two payloads \<open>createTime=2024-01-01 10:00:00\<close> and
  \<open>createTime=2024-01-01 12:30:00\<close> through \<open>parseQRContent\<close> on the sample host.
\<close>

theorem hundred_fifty_minutes_shown_as_three_hours:
  assumes "parsedTime r1 = Some (TimeParsed o1 p1 f1 t)"
    and "parsedTime r2 = Some (TimeParsed o2 p2 f2 (t + 9000000))"
  shows "comparison_deltas (createComparisonResults [r1, r2]) =
     [\<lparr>fromFile = fileName r1, toFile = fileName r2, differ = Hours 3,
        fromTime = f1, toTime = f2\<rparr>]"
proof -
  have h: "Math_round (of_int 9000000 / 3600000) = 3"
    unfolding Math_round_hours by simp
  have m: "Math_round (of_int 9000000 / 60000) = 150"
    unfolding Math_round_minutes by simp
  have e1: "time_entry_of r1 = Some \<lparr>tFileName = fileName r1, tFormatted = f1, tTimestamp = t\<rparr>"
    and e2: "time_entry_of r2 =
      Some \<lparr>tFileName = fileName r2, tFormatted = f2, tTimestamp = t + 9000000\<rparr>"
    using assms by (simp_all add: time_entry_of_def)
  have d: "delta_of \<lparr>tFileName = fileName r1, tFormatted = f1, tTimestamp = t\<rparr>
      \<lparr>tFileName = fileName r2, tFormatted = f2, tTimestamp = t + 9000000\<rparr>
    = \<lparr>fromFile = fileName r1, toFile = fileName r2, differ = Hours 3,
        fromTime = f1, toTime = f2\<rparr>"
    using h m by (simp add: delta_of_def Let_def)
  show ?thesis
    by (simp add: createComparisonResults_def comparison_deltas_def analyzeTimeDifferences_def
        deltas_of_def Let_def List.map_filter_simps e1 e2 d)
qed

theorem hundred_fifty_minutes_witness:
  "parsedTime (parseQRContent utc_host ''createTime=2024-01-01 10:00:00'' ''a.png'')
     = Some (TimeParsed ''2024-01-01 10:00:00'' 1704103200000 ''2024/01/01 10:00:00'' 1704103200000)
   \<and> parsedTime (parseQRContent utc_host ''createTime=2024-01-01 12:30:00'' ''b.png'')
     = Some (TimeParsed ''2024-01-01 12:30:00'' 1704112200000 ''2024/01/01 12:30:00''
          (1704103200000 + 9000000))
   \<and> comparison_deltas (createComparisonResults
        [parseQRContent utc_host ''createTime=2024-01-01 10:00:00'' ''a.png'',
         parseQRContent utc_host ''createTime=2024-01-01 12:30:00'' ''b.png'']) =
     [\<lparr>fromFile = ''a.png'', toFile = ''b.png'', differ = Hours 3,
        fromTime = ''2024/01/01 10:00:00'', toTime = ''2024/01/01 12:30:00''\<rparr>]"
proof -
  let ?r1 = "parseQRContent utc_host ''createTime=2024-01-01 10:00:00'' ''a.png''"
  let ?r2 = "parseQRContent utc_host ''createTime=2024-01-01 12:30:00'' ''b.png''"
  have a: "parsedTime ?r1
     = Some (TimeParsed ''2024-01-01 10:00:00'' 1704103200000 ''2024/01/01 10:00:00'' 1704103200000)"
    by code_simp
  have b: "parsedTime ?r2
     = Some (TimeParsed ''2024-01-01 12:30:00'' 1704112200000 ''2024/01/01 12:30:00''
          (1704103200000 + 9000000))"
    by code_simp
  have n: "fileName ?r1 = ''a.png''" "fileName ?r2 = ''b.png''"
    by (simp_all add: parseQRContent_def Let_def split: prod.splits option.splits js_val.splits)
  from hundred_fifty_minutes_shown_as_three_hours[OF a b] n a b show ?thesis
    by simp
qed

theorem hundred_fifty_minutes_not_two_hours:
  "\<not> (\<exists>d. comparison_deltas (createComparisonResults
        [parseQRContent utc_host ''createTime=2024-01-01 10:00:00'' ''a.png'',
         parseQRContent utc_host ''createTime=2024-01-01 12:30:00'' ''b.png'']) = [d]
       \<and> differ d = Hours 2)"
proof -
  have "comparison_deltas (createComparisonResults
        [parseQRContent utc_host ''createTime=2024-01-01 10:00:00'' ''a.png'',
         parseQRContent utc_host ''createTime=2024-01-01 12:30:00'' ''b.png'']) =
     [\<lparr>fromFile = ''a.png'', toFile = ''b.png'', differ = Hours 3,
        fromTime = ''2024/01/01 10:00:00'', toTime = ''2024/01/01 12:30:00''\<rparr>]"
    by code_simp
  then show ?thesis by simp
qed

subsection \<open>The comparison table\<close>

lemma set_fold_set_add: "set (fold set_add ks s) = set ks \<union> set s"
  by (induction ks arbitrary: s) (auto simp: set_add_def)

lemma distinct_fold_set_add: "distinct s \<Longrightarrow> distinct (fold set_add ks s)"
  by (induction ks arbitrary: s) (auto simp: set_add_def)

lemma set_all_params_fold:
  "set (fold (\<lambda>d s. fold set_add (Object_keys (params d)) s) ds s) = batch_keys ds \<union> set s"
  by (induction ds arbitrary: s) (auto simp: batch_keys_def set_fold_set_add)

lemma distinct_all_params_fold:
  "distinct s \<Longrightarrow> distinct (fold (\<lambda>d s. fold set_add (Object_keys (params d)) s) ds s)"
  by (induction ds arbitrary: s) (auto simp: distinct_fold_set_add)

lemma set_all_params: "set (all_params qrData) = batch_keys qrData"
  by (simp add: all_params_def set_all_params_fold)

lemma distinct_all_params: "distinct (all_params qrData)"
  by (simp add: all_params_def distinct_all_params_fold)

lemma set_Object_keys: "set (Object_keys obj) = fst ` set obj"
  by (auto simp: Object_keys_def Let_def)

lemma param_row_of: "param (row_of qrData p) = p"
  by (simp add: row_of_def Let_def)

lemma map_param_row_of: "map param (map (row_of qrData) ks) = ks"
  by (induction ks) (simp_all add: param_row_of)

lemma cells_row_of:
  assumes "p \<notin> set object_prototype_names"
  shows "cells (row_of qrData p) = map (\<lambda>d. cell_or_sentinel d p) qrData"
proof -
  have "or_empty (get_prop (params d) p) = cell_or_sentinel d p" for d
    using assms
    by (auto simp: or_empty_def get_prop_def truthy_def cell_or_sentinel_def split: option.splits)
  then show ?thesis
    by (simp add: row_of_def Let_def)
qed

lemma isUniform_row_of:
  assumes "qrData \<noteq> []"
  shows "isUniform (row_of qrData p) = (\<forall>v\<in>set (cells (row_of qrData p)). v = hd (cells (row_of qrData p)))"
  using assms by (cases qrData) (auto simp: row_of_def Let_def list_all_iff)

lemma rows_of_createComparisonResults:
  assumes "2 \<le> length qrData"
  shows "rows_of (createComparisonResults qrData) =
     map (row_of qrData) (sort_key utf16_units (all_params qrData))"
proof (cases "all_params qrData = []")
  case True
  with assms show ?thesis
    by (simp add: createComparisonResults_def rows_of_def Let_def)
next
  case False
  with assms show ?thesis
    by (simp add: createComparisonResults_def rows_of_def Let_def)
qed

lemma fewer_than_two_records: "length qrData < 2 \<Longrightarrow> createComparisonResults qrData = NeedTwoRecords"
  by (simp add: createComparisonResults_def)

text \<open>
  What holds of the table. For a batch of at least two records, the keys of the rows are
  the union of the records' keys, each once, in ascending lexicographic order of their
  UTF-16 code units, and a row is flagged as not uniform exactly when not all of its
  cells equal the first. For a key that is not the name of a member of
  \<open>Object.prototype\<close>, the cells are the values of the records in record order, the empty
  string standing for a record without the key.
\<close>

lemma comparison_rows_for_two_or_more_records:
  assumes "2 \<le> length qrData"
  shows "sorted (map utf16_units (map param (rows_of (createComparisonResults qrData))))
     \<and> distinct (map param (rows_of (createComparisonResults qrData)))
     \<and> set (map param (rows_of (createComparisonResults qrData))) = batch_keys qrData
     \<and> (\<forall>row\<in>set (rows_of (createComparisonResults qrData)).
           (\<not> isUniform row) = (\<not> (\<forall>v\<in>set (cells row). v = hd (cells row)))
           \<and> (param row \<notin> set object_prototype_names \<longrightarrow>
                cells row = map (\<lambda>d. cell_or_sentinel d (param row)) qrData))"
proof -
  let ?ks = "sort_key utf16_units (all_params qrData)"
  from assms have ne: "qrData \<noteq> []" by auto
  have rows: "rows_of (createComparisonResults qrData) = map (row_of qrData) ?ks"
    by (rule rows_of_createComparisonResults[OF assms])
  have keys: "map param (rows_of (createComparisonResults qrData)) = ?ks"
    unfolding rows by (rule map_param_row_of)
  have s: "sorted (map utf16_units ?ks)"
    by (rule sorted_sort_key)
  have d: "distinct ?ks"
    by (simp add: distinct_all_params)
  have e: "set ?ks = batch_keys qrData"
    by (simp add: set_all_params)
  have r: "\<forall>row\<in>set (rows_of (createComparisonResults qrData)).
           (\<not> isUniform row) = (\<not> (\<forall>v\<in>set (cells row). v = hd (cells row)))
           \<and> (param row \<notin> set object_prototype_names \<longrightarrow>
                cells row = map (\<lambda>d. cell_or_sentinel d (param row)) qrData)"
  proof
    fix row assume "row \<in> set (rows_of (createComparisonResults qrData))"
    with rows obtain p where p: "row = row_of qrData p"
      by auto
    show "(\<not> isUniform row) = (\<not> (\<forall>v\<in>set (cells row). v = hd (cells row)))
           \<and> (param row \<notin> set object_prototype_names \<longrightarrow>
                cells row = map (\<lambda>d. cell_or_sentinel d (param row)) qrData)"
      unfolding p using isUniform_row_of[OF ne, of p] cells_row_of[of p qrData]
      by (simp add: param_row_of)
  qed
  from s d e r show ?thesis
    unfolding keys by blast
qed

lemma comparison_rows_of_signature_batch:
  "rows_of (createComparisonResults signature_batch) =
       [\<lparr>param = ''id'', cells = [Str ''7'', Str []], isUniform = False\<rparr>,
        \<lparr>param = ''sig'', cells = [Str ''abc'', Str ''xyz''], isUniform = False\<rparr>,
        \<lparr>param = ''t'', cells = [Str ''1'', Str ''1''], isUniform = True\<rparr>,
        \<lparr>param = ''zone'', cells = [Str [], Str ''3''], isUniform = False\<rparr>]"
  by code_simp

text \<open>The order of the rows is that of UTF-16 code units, not of code points: a key that
  is U+1F600, two surrogates in UTF-16, comes before a key that is U+FF21.\<close>

lemma rows_in_code_unit_order:
  "map param (rows_of (createComparisonResults
     [\<lparr>fileName = ''a.png'', rawContent = None, params = [([CHR 0xEF, CHR 0xBC, CHR 0xA1], ''1'')],
        error = None, parsedTime = None\<rparr>,
      \<lparr>fileName = ''b.png'', rawContent = None,
        params = [([CHR 0xF0, CHR 0x9F, CHR 0x98, CHR 0x80], ''2'')],
        error = None, parsedTime = None\<rparr>]))
   = [[CHR 0xF0, CHR 0x9F, CHR 0x98, CHR 0x80], [CHR 0xEF, CHR 0xBC, CHR 0xA1]]"
  by code_simp

text \<open>
  Claim C6, at the failing input. Two records, the first with the one key \<open>constructor\<close>
  and the second with the one key \<open>b\<close>. The rows are those of the union of the keys, in
  order, and the record that lacks \<open>b\<close> has the empty string in that row. In the row of
  \<open>constructor\<close>, the cell of the record that lacks the key is not the empty string: the
  lookup \<open>data.params[param]\<close> finds the member \<open>constructor\<close> that the object inherits from
  \<open>Object.prototype\<close>, which is truthy, so \<open>|| ''\<close> does not replace it.
\<close>

theorem inherited_member_fills_missing_cell:
  "rows_of (createComparisonResults
     [parseQRContent utc_host ''constructor=x'' ''a.png'',
      parseQRContent utc_host ''b=1'' ''b.png'']) =
     [\<lparr>param = ''b'', cells = [Str [], Str ''1''], isUniform = False\<rparr>,
      \<lparr>param = ''constructor'', cells = [Str ''x'', Inherited ''constructor''],
       isUniform = False\<rparr>]
   \<and> map_of (params (parseQRContent utc_host ''b=1'' ''b.png'')) ''constructor'' = None
   \<and> cell_or_sentinel (parseQRContent utc_host ''b=1'' ''b.png'') ''constructor'' = Str []"
  by code_simp

subsection \<open>The extractor\<close>

lemma split_on_unfold:
  "split_on c s = first_piece c s # (if c \<in> set s then split_on c (after_first c s) else [])"
  by (induction s) (auto simp: first_piece_def after_first_def)

lemma split_limit_two:
  assumes "c \<in> set s"
  shows "split_limit c 2 s = [first_piece c s, first_piece c (after_first c s)]"
proof -
  have "split_on c s = first_piece c s # split_on c (after_first c s)"
    using assms split_on_unfold[of c s] by simp
  also have "split_on c (after_first c s) = first_piece c (after_first c s) #
      (if c \<in> set (after_first c s) then split_on c (after_first c (after_first c s)) else [])"
    by (rule split_on_unfold)
  finally show ?thesis
    by (simp add: split_limit_def)
qed

lemma split_on_not_Nil: "split_on c s \<noteq> []"
  by (subst split_on_unfold) simp

lemma piece_cases:
  assumes "p \<in> set (split_on c (x # xs))"
  shows "p = [] \<or> p \<in> set (split_on c xs)
     \<or> (x \<noteq> c \<and> (\<exists>a. p = x # a \<and> a \<in> set (split_on c xs)))"
  using assms split_on_not_Nil[of c xs] by (cases "split_on c xs") (auto split: if_splits)

lemma piece_subset: "p \<in> set (split_on c s) \<Longrightarrow> set p \<subseteq> set s"
proof (induction s arbitrary: p)
  case Nil
  then show ?case by simp
next
  case (Cons x xs)
  from piece_cases[OF Cons.prems] consider "p = []" | "p \<in> set (split_on c xs)"
    | a where "p = x # a" "a \<in> set (split_on c xs)"
    by blast
  then show ?case
  proof cases
    case 1
    then show ?thesis by simp
  next
    case 2
    from Cons.IH[OF 2] show ?thesis by auto
  next
    case 3
    from Cons.IH[OF 3(2)] 3(1) show ?thesis by auto
  qed
qed

lemma piece_without_separator: "p \<in> set (split_on c s) \<Longrightarrow> c \<notin> set p"
proof (induction s arbitrary: p)
  case Nil
  then show ?case by simp
next
  case (Cons x xs)
  from piece_cases[OF Cons.prems] consider "p = []" | "p \<in> set (split_on c xs)"
    | a where "x \<noteq> c" "p = x # a" "a \<in> set (split_on c xs)"
    by blast
  then show ?case
  proof cases
    case 1
    then show ?thesis by simp
  next
    case 2
    from Cons.IH[OF 2] show ?thesis .
  next
    case 3
    from Cons.IH[OF 3(3)] 3(1,2) show ?thesis by auto
  qed
qed

lemma assign_all_Cons: "assign_all ((k, v) # ps) obj = assign_all ps (set_prop obj k v)"
  by (simp add: assign_all_def)

lemma assign_all_Nil: "assign_all [] obj = obj"
  by (simp add: assign_all_def)

lemma bare_pairs_eq:
  "bare_pairs segs obj =
     (assign_all (map decoded_pair (takeWhile decodable (filter has_eq segs))) obj,
      if list_all decodable (filter has_eq segs) then None else Some URIError)"
proof (induction segs arbitrary: obj)
  case Nil
  then show ?case by (simp add: assign_all_Nil)
next
  case (Cons pair pairs)
  show ?case
  proof (cases "has_eq pair")
    case False
    then show ?thesis
      using Cons.IH by (simp add: has_eq_def)
  next
    case True
    then have sp: "split_limit (CHR ''='') 2 pair = [bare_key pair, bare_val pair]"
      by (simp add: has_eq_def split_limit_two bare_key_def bare_val_def)
    show ?thesis
    proof (cases "decodable pair")
      case False
      then have "decodeURIComponent (bare_key pair) = Inl URIError
          \<or> (\<exists>k. decodeURIComponent (bare_key pair) = Inr k
               \<and> decodeURIComponent (bare_val pair) = Inl URIError)"
        by (auto simp: decodable_def decodes_def split: sum.splits js_error.splits)
           (metis js_error.exhaust)+
      with True False sp show ?thesis
        by (auto simp: has_eq_def assign_all_Nil)
    next
      case dec: True
      then obtain k v where kv: "decodeURIComponent (bare_key pair) = Inr k"
        "decodeURIComponent (bare_val pair) = Inr v"
        by (auto simp: decodable_def decodes_def split: sum.splits)
      then have "decoded_pair pair = (k, v)"
        by (simp add: decoded_pair_def decoded_def)
      with True dec sp kv show ?thesis
        using Cons.IH[of "set_prop obj k v"]
        by (simp add: has_eq_def assign_all_Cons)
    qed
  qed
qed

lemma map_of_set_prop:
  "map_of (set_prop obj k v) k' =
     (if k = ''__proto__'' then map_of obj k' else if k' = k then Some v else map_of obj k')"
  by (simp add: set_prop_def update_conv')

lemma map_of_assign_all:
  "map_of (assign_all ps obj) k =
     (case map_of (rev (filter (\<lambda>(k', v). k' \<noteq> ''__proto__'') ps)) k of
        Some v \<Rightarrow> Some v
      | None \<Rightarrow> map_of obj k)"
proof (induction ps arbitrary: obj)
  case Nil
  then show ?case by (simp add: assign_all_Nil)
next
  case (Cons p ps)
  obtain k' v where p: "p = (k', v)" by (cases p)
  show ?case
    unfolding p assign_all_Cons Cons.IH
    by (auto simp: map_of_set_prop map_add_def split: option.splits)
qed

lemma parse_params_bare:
  assumes "CHR ''?'' \<notin> set content"
  shows "parse_params content =
     (assign_all (map decoded_pair
        (takeWhile decodable (filter has_eq (split_on (CHR ''&'') content)))) [],
      if list_all decodable (filter has_eq (split_on (CHR ''&'') content)) then None
      else Some URIError)"
proof (cases "CHR ''='' \<in> set content")
  case True
  with assms show ?thesis
    by (simp add: parse_params_def bare_pairs_eq)
next
  case False
  have "filter has_eq (split_on (CHR ''&'') content) = []"
    using False piece_subset[of _ "CHR ''&''" content]
    by (auto simp: filter_empty_conv has_eq_def)
  with False assms show ?thesis
    by (simp add: parse_params_def assign_all_Nil)
qed


lemma parseQRContent_params:
  "params (parseQRContent h content name) = fst (parse_params content)
   \<and> error (parseQRContent h content name) = map_option ParamParseFailed (snd (parse_params content))"
  by (cases "parse_params content")
     (auto simp: parseQRContent_def Let_def split: option.splits js_val.splits)

text \<open>Where every segment with \<open>=\<close> is decodable, the bare form extracts all of them
  and a later occurrence of a key overrides an earlier one.\<close>

lemma map_of_filter_key:
  "map_of (filter (\<lambda>(k', v). P k') ps) k = (if P k then map_of ps k else None)"
  by (induction ps) auto

lemma bare_extraction_last_wins:
  assumes "CHR ''?'' \<notin> set content"
    and "list_all decodable (filter has_eq (split_on (CHR ''&'') content))"
    and "k \<noteq> ''__proto__''"
  shows "error (parseQRContent h content name) = None
     \<and> map_of (params (parseQRContent h content name)) k =
         map_of (rev (map decoded_pair (filter has_eq (split_on (CHR ''&'') content)))) k"
proof -
  let ?segs = "filter has_eq (split_on (CHR ''&'') content)"
  from assms(2) have tw: "takeWhile decodable ?segs = ?segs"
    by (simp add: takeWhile_eq_all_conv list_all_iff)
  have pp: "parse_params content = (assign_all (map decoded_pair ?segs) [], None)"
    using parse_params_bare[OF assms(1)] assms(2) tw by simp
  have "map_of (assign_all (map decoded_pair ?segs) []) k =
      map_of (rev (filter (\<lambda>(k', v). k' \<noteq> ''__proto__'') (map decoded_pair ?segs))) k"
    by (simp add: map_of_assign_all split: option.splits)
  also have "\<dots> = map_of (rev (map decoded_pair ?segs)) k"
    using assms(3)
    by (simp add: rev_filter map_of_filter_key[where P = "\<lambda>k'. k' \<noteq> ''__proto__''"])
  finally show ?thesis
    by (simp add: parseQRContent_params pp)
qed




text \<open>
  Claim C2, at the failing inputs. In the bare form the value of a segment ends at its
  second \<open>=\<close>: \<open>sig=abc==\<close> gives the value \<open>abc\<close>, where cutting at the first \<open>=\<close> gives
  \<open>abc==\<close>, which is what \<open>URLSearchParams\<close>, the parser of the other branch, returns for
  the same segment. In the query form the text parsed ends at the second \<open>?\<close>:
  \<open>u?a=1?b=2\<close> gives \<open>a = 1\<close>, where everything after the first \<open>?\<close> gives \<open>a = 1?b=2\<close>.
\<close>

theorem extractor_truncates_at_second_separator:
  "params (parseQRContent utc_host ''sig=abc=='' ''f'') = [(''sig'', ''abc'')]
   \<and> URLSearchParams (Some ''sig=abc=='') = [(''sig'', ''abc=='')]
   \<and> params (parseQRContent utc_host ''u?a=1?b=2'' ''f'') = [(''a'', ''1'')]
   \<and> URLSearchParams (Some ''a=1?b=2'') = [(''a'', ''1?b=2'')]"
  by code_simp

text \<open>
  Claim C5, at the failing input. The pattern of the Time Mutator is not anchored at the
  start of a parameter name, so its first match can lie inside another parameter: here
  inside the name \<open>oldcreateTime\<close>, which stands before the parameter \<open>createTime\<close>. The
  hour of \<open>oldcreateTime\<close> is bumped and \<open>createTime\<close> itself stays, so the value
  extracted for the key \<open>oldcreateTime\<close>, which is not \<open>createTime\<close>, differs before and
  after.
\<close>

theorem bump_changes_other_parameter:
  "modifyCreateTime ''oldcreateTime=2024-01-01T10:00:00&createTime=2024-01-01T12:00:00''
     = ''oldcreateTime=2024-01-01T11:00:00&createTime=2024-01-01T12:00:00''
   \<and> params (parseQRContent utc_host
        ''oldcreateTime=2024-01-01T10:00:00&createTime=2024-01-01T12:00:00'' ''f'')
       = [(''oldcreateTime'', ''2024-01-01T10:00:00''), (''createTime'', ''2024-01-01T12:00:00'')]
   \<and> params (parseQRContent utc_host
        (modifyCreateTime ''oldcreateTime=2024-01-01T10:00:00&createTime=2024-01-01T12:00:00'') ''f'')
       = [(''oldcreateTime'', ''2024-01-01T11:00:00''), (''createTime'', ''2024-01-01T12:00:00'')]"
  by code_simp

end
